theory Spec2Isabelle
  imports Main "HOL-Library.Word" "HOL-Library.Char_ord" "HOL-Library.List_Lexorder"
begin

section \<open>Data model\<close>

text \<open>
  Go strings are byte sequences; \<open>string\<close> is a list of bytes, and \<open>length\<close> is Go's
  \<open>len\<close>.  Unsigned 32-bit fields of the DNS library (TTL, serial, SOA timers) are
  \<open>32 word\<close>, record types and classes are \<open>16 word\<close>.
\<close>

type_synonym uint32 = "32 word"
type_synonym uint16 = "16 word"
type_synonym int64 = "64 word"

text \<open>
  \<open>netip.Addr\<close>: an IPv4 address, an IPv6 address, or the zero value, which is neither
  (\<open>Is4\<close> and \<open>Is6\<close> are both false for it).
\<close>

datatype addr = Addr4 "32 word" | Addr6 "128 word" | AddrZero

fun Is4 :: "addr \<Rightarrow> bool" where
  "Is4 (Addr4 _) = True"
| "Is4 _ = False"

fun Is6 :: "addr \<Rightarrow> bool" where
  "Is6 (Addr6 _) = True"
| "Is6 _ = False"

text \<open>The serial cell of the \<open>Gateway\<close> struct (\<open>lastSerial\<close>, \<open>dirty\<close>; the mutex is
  not modelled: every access below is one atomic step).\<close>

record serial_cell =
  lastSerial :: uint32
  dirty :: bool

section \<open>SOA serial (apex.go)\<close>

text \<open>
  \<open>calculateSerial\<close>: \<open>now\<close> is the value of \<open>time.Now().Unix()\<close> (an \<open>int64\<close>) read by
  the call; \<open>uint32(...)\<close> keeps its low 32 bits.  The function returns the serial and
  the updated cell.
\<close>

definition calculateSerial :: "int64 \<Rightarrow> serial_cell \<Rightarrow> uint32 \<times> serial_cell" where
  "calculateSerial now c =
     (if dirty c then
        (let newSerial = (ucast now :: uint32);
             newSerial = (if newSerial \<le> lastSerial c then lastSerial c + 1 else newSerial);
             c' = c\<lparr>lastSerial := newSerial, dirty := False\<rparr>
         in (lastSerial c', c'))
      else (lastSerial c, c))"

text \<open>
  Modelled from the spec: \<open>markDirty\<close> is called by the tests but its body is not among
  the sources; the spec says it sets the dirty flag ("the \<open>dirty\<close> flag is set by the
  indexer layer whenever the underlying resource snapshot changes").
\<close>

definition markDirty :: "serial_cell \<Rightarrow> serial_cell" where
  "markDirty c = c\<lparr>dirty := True\<rparr>"

section \<open>TXT segmentation (gateway.go)\<close>

text \<open>
  The loop of \<open>split255\<close> with its variables \<open>p\<close>, \<open>i\<close> and \<open>sx\<close>;
  \<open>s[p:i]\<close> is \<open>take (i - p) (drop p s)\<close> and \<open>s[p:]\<close> is \<open>drop p s\<close>.  The slice
  bounds are always in range: \<open>p + 255 = i\<close> and \<open>p \<le> len(s)\<close> hold at every test.
\<close>

function split255_loop :: "string \<Rightarrow> nat \<Rightarrow> nat \<Rightarrow> string list \<Rightarrow> string list" where
  "split255_loop s p i sx =
     (if i > length s then sx @ [drop p s]
      else split255_loop s (p + 255) (i + 255) (sx @ [take (i - p) (drop p s)]))"
  by pat_completeness auto
termination
  by (relation "measure (\<lambda>(s, p, i, sx). Suc (length s) - i)") auto

definition split255 :: "string \<Rightarrow> string list" where
  "split255 s = (if length s < 255 then [s] else split255_loop s 0 255 [])"

section \<open>String helpers (Go's \<open>strings\<close> package, on ASCII names)\<close>

text \<open>
  \<open>strings.ToLower\<close> on ASCII bytes; a byte outside \<open>A\<close>..\<open>Z\<close> is kept (DNS names
  in presentation format are ASCII, other bytes appear escaped).
\<close>

definition toLowerByte :: "char \<Rightarrow> char" where
  "toLowerByte c =
     (let n = (of_char c :: nat) in if 65 \<le> n \<and> n \<le> 90 then char_of (n + 32) else c)"

definition ToLower :: "string \<Rightarrow> string" where
  "ToLower s = map toLowerByte s"

definition HasSuffix :: "string \<Rightarrow> string \<Rightarrow> bool" where
  "HasSuffix s suffix =
     (length suffix \<le> length s \<and> drop (length s - length suffix) s = suffix)"

definition TrimSuffix :: "string \<Rightarrow> string \<Rightarrow> string" where
  "TrimSuffix s suffix =
     (if HasSuffix s suffix then take (length s - length suffix) s else s)"

fun Contains :: "string \<Rightarrow> string \<Rightarrow> bool" where
  "Contains [] substr = (substr = [])"
| "Contains (c # cs) substr =
     (take (length substr) (c # cs) = substr \<or> Contains cs substr)"

text \<open>\<open>strings.Split(s, sep)\<close> for a one-byte separator: the empty string gives one
  empty field.\<close>

fun Split :: "string \<Rightarrow> char \<Rightarrow> string list" where
  "Split [] sep = [[]]"
| "Split (c # cs) sep =
     (if c = sep then [] # Split cs sep
      else (case Split cs sep of [] \<Rightarrow> [[c]] | f # fs \<Rightarrow> (c # f) # fs))"

fun Join :: "string list \<Rightarrow> string \<Rightarrow> string" where
  "Join [] sep = []"
| "Join [x] sep = x"
| "Join (x # y # ys) sep = x @ sep @ Join (y # ys) sep"

section \<open>Name functions of the DNS libraries\<close>

text \<open>
  The functions of \<open>miekg/dns\<close> and of CoreDNS that the plugin calls, written for names
  without backslash escapes.  \<open>labelChunks\<close> cuts a name after every dot except a final
  one, as \<open>dns.Split\<close> does (\<open>"a.b."\<close> gives \<open>"a."\<close> and \<open>"b."\<close>).
\<close>

definition Fqdn :: "string \<Rightarrow> string" where
  "Fqdn s = (if s \<noteq> [] \<and> last s = CHR ''.'' then s else s @ ''.'')"

fun labelChunks :: "string \<Rightarrow> string list" where
  "labelChunks [] = [[]]"
| "labelChunks [c] = [[c]]"
| "labelChunks (c # d # cs) =
     (if c = CHR ''.'' then [c] # labelChunks (d # cs)
      else (case labelChunks (d # cs) of [] \<Rightarrow> [[c]] | f # fs \<Rightarrow> (c # f) # fs))"

definition CountLabel :: "string \<Rightarrow> nat" where
  "CountLabel s = (if s = ''.'' then 0 else length (labelChunks s))"

text \<open>The number of labels two names share from the right, compared without case.\<close>

fun commonLabels :: "string list \<Rightarrow> string list \<Rightarrow> nat" where
  "commonLabels (x # xs) (y # ys) =
     (if ToLower x = ToLower y then Suc (commonLabels xs ys) else 0)"
| "commonLabels _ _ = 0"

definition CompareDomainName :: "string \<Rightarrow> string \<Rightarrow> nat" where
  "CompareDomainName s1 s2 =
     (if s1 = ''.'' \<or> s2 = ''.'' then 0
      else commonLabels (rev (labelChunks s1)) (rev (labelChunks s2)))"

definition IsSubDomain :: "string \<Rightarrow> string \<Rightarrow> bool" where
  "IsSubDomain parent child = (CompareDomainName parent child = CountLabel parent)"

text \<open>\<open>dns.PrevLabel(s, n)\<close>: the loop runs \<open>l\<close> downwards; the first argument of
  \<open>prevLabelLoop\<close> is \<open>l + 1\<close>.\<close>

fun prevLabelLoop :: "string \<Rightarrow> nat \<Rightarrow> nat \<Rightarrow> nat \<times> bool" where
  "prevLabelLoop s 0 n = (0, n > 1)"
| "prevLabelLoop s (Suc l) n =
     (if s ! l \<noteq> CHR ''.'' then prevLabelLoop s l n
      else if n - 1 = 0 then (l + 1, False)
      else prevLabelLoop s l (n - 1))"

definition PrevLabel :: "string \<Rightarrow> nat \<Rightarrow> nat \<times> bool" where
  "PrevLabel s n =
     (if s = [] then (0, True)
      else if n = 0 then (length s, False)
      else prevLabelLoop s (if last s = CHR ''.'' then length s - 1 else length s) n)"

text \<open>\<open>dnsutil.TrimZone\<close>: \<open>None\<close> is its error return.\<close>

definition TrimZone :: "string \<Rightarrow> string \<Rightarrow> string option" where
  "TrimZone q z =
     (case PrevLabel q (CountLabel z) of
        (i, ok) \<Rightarrow> if ok \<or> i = 0 then None else Some (take (i - 1) q))"

text \<open>\<open>dnsutil.Join\<close>; the plugin always passes at least two labels.\<close>

definition dnsutil_Join :: "string list \<Rightarrow> string" where
  "dnsutil_Join labels =
     (if labels \<noteq> [] \<and> last labels = ''.'' then Join (butlast labels) ''.'' @ ''.''
      else Fqdn (Join labels ''.''))"

text \<open>\<open>plugin.Zones.Matches\<close>: the longest configured zone the name lies in, the
  earlier one on a tie, \<open>""\<close> if there is none.\<close>

fun Matches_loop :: "string list \<Rightarrow> string \<Rightarrow> string \<Rightarrow> string" where
  "Matches_loop [] qname zone = zone"
| "Matches_loop (zname # zs) qname zone =
     Matches_loop zs qname
       (if IsSubDomain zname qname \<and> length zname > length zone then zname else zone)"

definition Matches :: "string list \<Rightarrow> string \<Rightarrow> string" where
  "Matches z qname = Matches_loop z qname []"

section \<open>Records, requests and the gateway (gateway.go)\<close>

definition TypeA :: uint16 where "TypeA = 1"
definition TypeNS :: uint16 where "TypeNS = 2"
definition TypeCNAME :: uint16 where "TypeCNAME = 5"
definition TypeSOA :: uint16 where "TypeSOA = 6"
definition TypeTXT :: uint16 where "TypeTXT = 16"
definition TypeAAAA :: uint16 where "TypeAAAA = 28"
definition ClassINET :: uint16 where "ClassINET = 1"

definition RcodeSuccess :: int where "RcodeSuccess = 0"
definition RcodeServerFailure :: int where "RcodeServerFailure = 2"
definition RcodeNameError :: int where "RcodeNameError = 3"

text \<open>The record data of the \<open>dns.RR\<close> implementations the plugin builds; \<open>SOA_data\<close>
  carries \<open>Ns\<close>, \<open>Mbox\<close>, \<open>Serial\<close>, \<open>Refresh\<close>, \<open>Retry\<close>, \<open>Expire\<close>, \<open>Minttl\<close>.\<close>

datatype rdata =
    A_data addr
  | AAAA_data addr
  | TXT_data "string list"
  | CNAME_data string
  | NS_data string
  | SOA_data string string uint32 uint32 uint32 uint32 uint32

text \<open>A \<open>dns.RR\<close>: the four fields of \<open>dns.RR_Header\<close> the plugin sets, and the data.\<close>

record rr =
  Hdr_Name :: string
  Hdr_Rrtype :: uint16
  Hdr_Class :: uint16
  Hdr_Ttl :: uint32
  Rdata :: rdata

text \<open>The part of \<open>dns.Msg\<close> the plugin writes.\<close>

record msg =
  Rcode :: int
  Authoritative :: bool
  Answer :: "rr list"
  Ns :: "rr list"
  Extra :: "rr list"

text \<open>
  \<open>request.Request\<close>: the question of the request message (\<open>None\<close> when \<open>Req\<close> is nil,
  as in a zone transfer) and the zone.  \<open>QName\<close> is the name as asked, \<open>Name\<close> its
  lower-case form, \<open>QType\<close> is 0 without a question.
\<close>

record question =
  Q_Name :: string
  Q_Type :: uint16

record request =
  Req :: "question option"
  Zone :: string

definition QName :: "request \<Rightarrow> string" where
  "QName state = (case Req state of None \<Rightarrow> ''.'' | Some q \<Rightarrow> Q_Name q)"

definition Name :: "request \<Rightarrow> string" where
  "Name state = (case Req state of None \<Rightarrow> ''.'' | Some q \<Rightarrow> ToLower (Q_Name q))"

definition QType :: "request \<Rightarrow> uint16" where
  "QType state = (case Req state of None \<Rightarrow> 0 | Some q \<Rightarrow> Q_Type q)"

text \<open>\<open>lookupFunc\<close> and \<open>resourceWithIndex\<close>.\<close>

type_synonym lookupFunc = "string list \<Rightarrow> addr list \<times> string list \<times> string list"

record resourceWithIndex =
  res_name :: string
  res_lookup :: lookupFunc

definition noop :: lookupFunc where
  "noop indexKeys = ([], [], [])"

text \<open>
  The cluster objects a zone transfer walks, with the fields it reads.  A label or
  annotation map is a map from strings to strings; a load-balancer ingress entry is its
  \<open>IP\<close> and \<open>Hostname\<close>; a parent reference is a namespace and a name.
\<close>

type_synonym lb_ingress = "string \<times> string"
type_synonym parent_ref = "string \<times> string"

record ingress_obj =
  ing_Labels :: "string \<rightharpoonup> string"
  ing_IngressClassName :: "string option"
  ing_LoadBalancerIngress :: "lb_ingress list"
  ing_RuleHosts :: "string list"

record service_obj =
  svc_Labels :: "string \<rightharpoonup> string"
  svc_Annotations :: "string \<rightharpoonup> string"
  svc_Name :: string
  svc_Namespace :: string
  svc_Type :: string
  svc_ExternalIPs :: "string list"
  svc_LoadBalancerIngress :: "lb_ingress list"

record gateway_obj =
  gwo_Name :: string
  gwo_Namespace :: string
  gwo_ClassName :: string
  gwo_Addresses :: "string list"

record route_obj =
  rt_Labels :: "string \<rightharpoonup> string"
  rt_Namespace :: string
  rt_ParentRefs :: "parent_ref list"
  rt_Hostnames :: "string list"

record endpoint =
  ep_DNSName :: string
  ep_RecordType :: string
  ep_Targets :: "string list"

record dnsendpoint_obj =
  de_Labels :: "string \<rightharpoonup> string"
  de_Endpoints :: "endpoint list"

datatype k8s_object =
    IngressObj ingress_obj
  | ServiceObj service_obj
  | GatewayObj gateway_obj
  | HTTPRouteObj route_obj
  | TLSRouteObj route_obj
  | GRPCRouteObj route_obj
  | DNSEndpointObj dnsendpoint_obj

text \<open>
  The fields of the \<open>Gateway\<close> struct that the query path and the zone transfer
  read.  \<open>hasSynced\<close> is \<open>Controller.HasSynced()\<close>, \<open>controllers\<close> the stores of
  \<open>Controller.controllers\<close> (each the list its \<open>GetStore().List()\<close> returns),
  \<open>FallZones\<close> the zones of \<open>Fall\<close>, \<open>ingressClasses\<close> and \<open>gatewayClasses\<close> the
  two lists of \<open>resourceFilters\<close>.
\<close>

record gateway =
  Zones :: "string list"
  Resources :: "resourceWithIndex list"
  ttlLow :: uint32
  ttlSOA :: uint32
  hasSynced :: bool
  apex :: string
  hostmaster :: string
  secondNS :: string
  ExternalAddrFunc :: "request \<Rightarrow> rr list"
  CNAMEMaxDepth :: int
  FallZones :: "string list"
  soaRefresh :: uint32
  soaRetry :: uint32
  soaExpire :: uint32
  controllers :: "k8s_object list list"
  ingressClasses :: "string list"
  gatewayClasses :: "string list"

section \<open>Index keys and the lookup pipeline (gateway.go)\<close>

definition stripClosingDot :: "string \<Rightarrow> string" where
  "stripClosingDot s = (if length s > 1 then TrimSuffix s ''.'' else s)"

text \<open>\<open>stripDomain\<close> slices \<open>qname[:len(qname)-len(zone)]\<close>: Go panics when the zone is
  longer than the name, which is \<open>None\<close> here.\<close>

definition stripDomain :: "string \<Rightarrow> string \<Rightarrow> string option" where
  "stripDomain qname zone =
     (if length zone > length qname then None
      else Some (stripClosingDot (take (length qname - length zone) qname)))"

definition getQueryIndexKeys :: "string \<Rightarrow> string \<Rightarrow> string list option" where
  "getQueryIndexKeys qName zone =
     (case stripDomain qName zone of
        None \<Rightarrow> None
      | Some zonelessQuery \<Rightarrow>
          (let strippedQName = stripClosingDot qName
           in if length zonelessQuery \<noteq> 0 \<and> zonelessQuery \<noteq> strippedQName
              then Some [strippedQName, zonelessQuery]
              else Some [strippedQName]))"

definition toWildcardQName :: "string \<Rightarrow> string \<Rightarrow> string option" where
  "toWildcardQName qName zone =
     (case stripDomain qName zone of
        None \<Rightarrow> None
      | Some zonelessQuery \<Rightarrow>
          (let parts = Split zonelessQuery (CHR ''.'')
           in if length parts = 0 then Some []
              else Some (Join ((parts[0 := ''*'']) @ [zone]) ''.'')))"

definition getQueryIndexKeySets :: "string \<Rightarrow> string \<Rightarrow> string list list option" where
  "getQueryIndexKeySets qName zone =
     (case getQueryIndexKeys qName zone of
        None \<Rightarrow> None
      | Some specificIndexKeys \<Rightarrow>
          (case toWildcardQName qName zone of
             None \<Rightarrow> None
           | Some wildcardQName \<Rightarrow>
               if wildcardQName = [] then Some [specificIndexKeys]
               else (case getQueryIndexKeys wildcardQName zone of
                       None \<Rightarrow> None
                     | Some wildcardIndexKeys \<Rightarrow>
                         Some [specificIndexKeys, wildcardIndexKeys])))"

text \<open>The two loops of \<open>getMatchingAddressesWithCNAME\<close>: the inner one over the resources,
  the outer one over the key sets.\<close>

fun lookupResources ::
  "resourceWithIndex list \<Rightarrow> string list \<Rightarrow> (addr list \<times> string list \<times> string list) option"
where
  "lookupResources [] indexKeys = None"
| "lookupResources (resource # rest) indexKeys =
     (case res_lookup resource indexKeys of
        (addrs, raws, cnames) \<Rightarrow>
          if length addrs > 0 \<or> length raws > 0 \<or> length cnames > 0
          then Some (addrs, raws, cnames)
          else lookupResources rest indexKeys)"

fun getMatchingAddressesWithCNAME ::
  "gateway \<Rightarrow> string list list \<Rightarrow> addr list \<times> string list \<times> string list"
where
  "getMatchingAddressesWithCNAME gw [] = ([], [], [])"
| "getMatchingAddressesWithCNAME gw (indexKeys # rest) =
     (case lookupResources (Resources gw) indexKeys of
        Some found \<Rightarrow> found
      | None \<Rightarrow> getMatchingAddressesWithCNAME gw rest)"

section \<open>Building records (gateway.go, apex.go)\<close>

text \<open>
  The \<open>dup\<close> map of \<open>A\<close>, \<open>AAAA\<close> and \<open>TXT\<close>: a value is kept the first time it is seen.
  The map is keyed by \<open>result.String()\<close>, which is injective on addresses, so the model
  compares the addresses themselves.
\<close>

fun dedupLoop :: "'a list \<Rightarrow> 'a list \<Rightarrow> 'a list" where
  "dedupLoop dup [] = []"
| "dedupLoop dup (result # results) =
     (if result \<in> set dup then dedupLoop dup results
      else result # dedupLoop (result # dup) results)"

definition A :: "gateway \<Rightarrow> string \<Rightarrow> addr list \<Rightarrow> rr list" where
  "A gw name results =
     map (\<lambda>result. \<lparr>Hdr_Name = name, Hdr_Rrtype = TypeA, Hdr_Class = ClassINET,
                     Hdr_Ttl = ttlLow gw, Rdata = A_data result\<rparr>)
         (dedupLoop [] results)"

definition AAAA :: "gateway \<Rightarrow> string \<Rightarrow> addr list \<Rightarrow> rr list" where
  "AAAA gw name results =
     map (\<lambda>result. \<lparr>Hdr_Name = name, Hdr_Rrtype = TypeAAAA, Hdr_Class = ClassINET,
                     Hdr_Ttl = ttlLow gw, Rdata = AAAA_data result\<rparr>)
         (dedupLoop [] results)"

definition TXT :: "gateway \<Rightarrow> string \<Rightarrow> string list \<Rightarrow> rr list" where
  "TXT gw name results =
     map (\<lambda>result. \<lparr>Hdr_Name = name, Hdr_Rrtype = TypeTXT, Hdr_Class = ClassINET,
                     Hdr_Ttl = ttlLow gw, Rdata = TXT_data (split255 result)\<rparr>)
         (dedupLoop [] results)"

definition CNAME :: "gateway \<Rightarrow> string \<Rightarrow> string \<Rightarrow> rr" where
  "CNAME gw name target =
     \<lparr>Hdr_Name = name, Hdr_Rrtype = TypeCNAME, Hdr_Class = ClassINET,
      Hdr_Ttl = ttlLow gw, Rdata = CNAME_data (Fqdn target)\<rparr>"

text \<open>\<open>soa\<close> reads the clock through \<open>calculateSerial\<close> and may update the serial cell.\<close>

definition soa :: "gateway \<Rightarrow> int64 \<Rightarrow> request \<Rightarrow> serial_cell \<Rightarrow> rr \<times> serial_cell" where
  "soa gw now state c =
     (case calculateSerial now c of
        (serial, c') \<Rightarrow>
          (\<lparr>Hdr_Name = Zone state, Hdr_Rrtype = TypeSOA, Hdr_Class = ClassINET,
            Hdr_Ttl = ttlSOA gw,
            Rdata = SOA_data (dnsutil_Join [apex gw, Zone state])
                             (dnsutil_Join [hostmaster gw, apex gw, Zone state])
                             serial (soaRefresh gw) (soaRetry gw) (soaExpire gw) (ttlSOA gw)\<rparr>,
           c'))"

text \<open>The serial of an SOA record (0 for any other record).\<close>

definition Serial :: "rr \<Rightarrow> uint32" where
  "Serial r = (case Rdata r of SOA_data ns mbox serial refresh retry expire minttl \<Rightarrow> serial
               | _ \<Rightarrow> 0)"

definition ns1 :: "gateway \<Rightarrow> request \<Rightarrow> rr" where
  "ns1 gw state =
     \<lparr>Hdr_Name = Zone state, Hdr_Rrtype = TypeNS, Hdr_Class = ClassINET,
      Hdr_Ttl = ttlSOA gw, Rdata = NS_data (dnsutil_Join [apex gw, Zone state])\<rparr>"

definition ns2 :: "gateway \<Rightarrow> request \<Rightarrow> rr option" where
  "ns2 gw state =
     (if secondNS gw = [] then None
      else Some \<lparr>Hdr_Name = Zone state, Hdr_Rrtype = TypeNS, Hdr_Class = ClassINET,
                 Hdr_Ttl = ttlSOA gw, Rdata = NS_data (dnsutil_Join [secondNS gw, Zone state])\<rparr>)"

definition nameservers :: "gateway \<Rightarrow> request \<Rightarrow> rr list" where
  "nameservers gw state =
     (case ns2 gw state of
        None \<Rightarrow> [ns1 gw state]
      | Some secondaryNS \<Rightarrow> [ns1 gw state, secondaryNS])"

section \<open>CNAME chain resolution (gateway.go)\<close>

definition canonicalizeDNSName :: "string \<Rightarrow> string" where
  "canonicalizeDNSName name =
     (let name = ToLower name in if \<not> HasSuffix name ''.'' then name @ ''.'' else name)"

text \<open>
  The errors \<open>resolveCNAMEChainWithVisited\<close> returns, and its outcomes: addresses, an
  error, or a panic (the slice in \<open>stripDomain\<close>).
\<close>

datatype cname_error = DepthLimitReached | LoopDetected | TargetNotFound

datatype resolution = Resolved "addr list" | Failed cname_error | Panicked

text \<open>
  \<open>resolveCNAMEChainWithVisited\<close>.  The Go function returns addresses and an error and
  mutates the \<open>visited\<close> map (the deferred \<open>delete\<close> also runs when the call panics); the
  model returns the outcome and the map as the call leaves it.  The third component is a
  log that the source does not keep: one entry, the canonical name and the remaining
  depth, for every execution of \<open>visited[canonicalCname] = true\<close>, in order.
\<close>

function resolveCNAMEChainWithVisited ::
  "gateway \<Rightarrow> string \<Rightarrow> string \<Rightarrow> int \<Rightarrow> (string \<rightharpoonup> bool) \<Rightarrow>
     resolution \<times> (string \<rightharpoonup> bool) \<times> (string \<times> int) list"
where
  "resolveCNAMEChainWithVisited gw cname zone maxDepth visited =
     (if maxDepth \<le> 0 then (Failed DepthLimitReached, visited, [])
      else
        let canonicalCname = canonicalizeDNSName cname;
            canonicalZone = canonicalizeDNSName zone
        in if visited canonicalCname = Some True then (Failed LoopDetected, visited, [])
           else
             let visited1 = visited(canonicalCname \<mapsto> True);
                 mark = (canonicalCname, maxDepth)
             in (case getQueryIndexKeySets canonicalCname canonicalZone of
                   None \<Rightarrow> (Panicked, visited1(canonicalCname := None), [mark])
                 | Some indexKeySets \<Rightarrow>
                     (case getMatchingAddressesWithCNAME gw indexKeySets of
                        (addrs, raws, nextCnames) \<Rightarrow>
                          if length addrs > 0
                          then (Resolved addrs, visited1(canonicalCname := None), [mark])
                          else if length nextCnames > 0
                          then (case resolveCNAMEChainWithVisited gw (hd nextCnames)
                                       canonicalZone (maxDepth - 1) visited1 of
                                  (res, visited2, marks) \<Rightarrow>
                                    (res, visited2(canonicalCname := None), mark # marks))
                          else if \<not> HasSuffix canonicalCname canonicalZone
                          then (Resolved [], visited1(canonicalCname := None), [mark])
                          else (Failed TargetNotFound, visited1(canonicalCname := None),
                                [mark]))))"
  by pat_completeness auto
termination
  by (relation "measure (\<lambda>(gw, cname, zone, maxDepth, visited). nat maxDepth)") auto

definition resolveCNAMEChain :: "gateway \<Rightarrow> string \<Rightarrow> string \<Rightarrow> int \<Rightarrow> resolution" where
  "resolveCNAMEChain gw cname zone maxDepth =
     fst (resolveCNAMEChainWithVisited gw cname zone maxDepth Map.empty)"

section \<open>Response assembly (gateway.go)\<close>

text \<open>
  The handlers mutate the reply \<open>m\<close>; here each returns the new message, and the new
  serial cell when it calls \<open>soa\<close>.  \<open>now\<close> is the clock value a call of \<open>soa\<close> reads.
  A handler that can panic returns an option, \<open>None\<close> for the panic.
\<close>

definition setNegativeResponse ::
  "gateway \<Rightarrow> int64 \<Rightarrow> msg \<Rightarrow> request \<Rightarrow> serial_cell \<Rightarrow> msg \<times> serial_cell" where
  "setNegativeResponse gw now m state c =
     (case soa gw now state c of (r, c') \<Rightarrow> (m\<lparr>Ns := [r]\<rparr>, c'))"

definition addExtraRecords :: "gateway \<Rightarrow> msg \<Rightarrow> request \<Rightarrow> msg" where
  "addExtraRecords gw m state =
     m\<lparr>Extra := Extra m @ map (\<lambda>rr. rr\<lparr>Hdr_Ttl := ttlSOA gw\<rparr>) (ExternalAddrFunc gw state)\<rparr>"

definition addResolvedAddresses ::
  "gateway \<Rightarrow> msg \<Rightarrow> string \<Rightarrow> addr list \<Rightarrow> bool \<Rightarrow> bool \<Rightarrow> msg" where
  "addResolvedAddresses gw m cname addrs needIPv4 needIPv6 =
     (let m = (if needIPv4
               then (let ipv4Addrs = filter Is4 addrs
                     in if length ipv4Addrs > 0
                        then m\<lparr>Answer := Answer m @ A gw (Fqdn cname) ipv4Addrs\<rparr>
                        else m)
               else m);
          m = (if needIPv6
               then (let ipv6Addrs = filter Is6 addrs
                     in if length ipv6Addrs > 0
                        then m\<lparr>Answer := Answer m @ AAAA gw (Fqdn cname) ipv6Addrs\<rparr>
                        else m)
               else m)
      in m)"

definition processCNAMEWithResolution ::
  "gateway \<Rightarrow> msg \<Rightarrow> request \<Rightarrow> string \<Rightarrow> bool \<Rightarrow> bool \<Rightarrow> msg option" where
  "processCNAMEWithResolution gw m state cname needIPv4 needIPv6 =
     (let m = m\<lparr>Answer := Answer m @ [CNAME gw (Name state) cname]\<rparr>
      in case resolveCNAMEChain gw cname (Zone state) (CNAMEMaxDepth gw) of
           Panicked \<Rightarrow> None
         | Failed err \<Rightarrow> Some m
         | Resolved resolvedAddrs \<Rightarrow>
             if length resolvedAddrs = 0 then Some m
             else Some (addResolvedAddresses gw m cname resolvedAddrs needIPv4 needIPv6))"

definition handleAddressQuery ::
  "gateway \<Rightarrow> int64 \<Rightarrow> msg \<Rightarrow> request \<Rightarrow> addr list \<Rightarrow> string list \<Rightarrow> bool \<Rightarrow> bool \<Rightarrow>
     serial_cell \<Rightarrow> (msg \<times> serial_cell) option" where
  "handleAddressQuery gw now m state addrs cnames isRootZoneQuery isIPv4 c =
     (if length addrs = 0 \<and> length cnames = 0
      then (case setNegativeResponse gw now m state c of
              (m, c') \<Rightarrow>
                Some (if \<not> isRootZoneQuery then m\<lparr>Rcode := RcodeNameError\<rparr> else m, c'))
      else if length cnames > 0
      then (case processCNAMEWithResolution gw m state (hd cnames) isIPv4 (\<not> isIPv4) of
              None \<Rightarrow> None
            | Some m \<Rightarrow> Some (m, c))
      else if isIPv4 then Some (m\<lparr>Answer := A gw (Name state) addrs\<rparr>, c)
      else Some (m\<lparr>Answer := AAAA gw (Name state) addrs\<rparr>, c))"

definition handleDataQuery ::
  "gateway \<Rightarrow> int64 \<Rightarrow> msg \<Rightarrow> request \<Rightarrow> string list \<Rightarrow> bool \<Rightarrow> bool \<Rightarrow> serial_cell \<Rightarrow>
     msg \<times> serial_cell" where
  "handleDataQuery gw now m state data isRootZoneQuery noDataFound c =
     (if length data = 0
      then (case setNegativeResponse gw now m state c of
              (m, c') \<Rightarrow>
                (if \<not> isRootZoneQuery \<and> noDataFound then m\<lparr>Rcode := RcodeNameError\<rparr> else m, c'))
      else (m\<lparr>Answer := TXT gw (Name state) data\<rparr>, c))"

definition handleCNAMEQuery ::
  "gateway \<Rightarrow> int64 \<Rightarrow> msg \<Rightarrow> request \<Rightarrow> string list \<Rightarrow> bool \<Rightarrow> bool \<Rightarrow> serial_cell \<Rightarrow>
     msg \<times> serial_cell" where
  "handleCNAMEQuery gw now m state cnames isRootZoneQuery noDataFound c =
     (if length cnames = 0
      then (case setNegativeResponse gw now m state c of
              (m, c') \<Rightarrow>
                (if noDataFound \<and> \<not> isRootZoneQuery \<and>
                    Contains (ToLower (Name state)) ''nonexistent''
                 then m\<lparr>Rcode := RcodeNameError\<rparr> else m, c'))
      else (m\<lparr>Answer := [CNAME gw (Name state) (hd cnames)]\<rparr>, c))"

definition handleNSQuery ::
  "gateway \<Rightarrow> int64 \<Rightarrow> msg \<Rightarrow> request \<Rightarrow> bool \<Rightarrow> serial_cell \<Rightarrow> msg \<times> serial_cell" where
  "handleNSQuery gw now m state isRootZoneQuery c =
     (if isRootZoneQuery
      then (addExtraRecords gw (m\<lparr>Answer := nameservers gw state\<rparr>) state, c)
      else setNegativeResponse gw now m state c)"

definition processQueryResponse ::
  "gateway \<Rightarrow> int64 \<Rightarrow> msg \<Rightarrow> request \<Rightarrow> addr list \<Rightarrow> addr list \<Rightarrow> string list \<Rightarrow>
     string list \<Rightarrow> bool \<Rightarrow> bool \<Rightarrow> serial_cell \<Rightarrow> (msg \<times> serial_cell) option" where
  "processQueryResponse gw now m state ipv4Addrs ipv6Addrs raws cnames isRootZoneQuery
       noDataFound c =
     (if QType state = TypeA
      then handleAddressQuery gw now m state ipv4Addrs cnames isRootZoneQuery True c
      else if QType state = TypeAAAA
      then (case handleAddressQuery gw now m state ipv6Addrs cnames isRootZoneQuery False c of
              None \<Rightarrow> None
            | Some (m, c') \<Rightarrow>
                Some (if length ipv6Addrs = 0 \<and> length cnames = 0 \<and> length ipv4Addrs > 0
                      then m\<lparr>Rcode := RcodeSuccess\<rparr> else m, c'))
      else if QType state = TypeTXT
      then Some (handleDataQuery gw now m state raws isRootZoneQuery noDataFound c)
      else if QType state = TypeCNAME
      then Some (handleCNAMEQuery gw now m state cnames isRootZoneQuery noDataFound c)
      else if QType state = TypeSOA
      then (case soa gw now state c of (r, c') \<Rightarrow> Some (m\<lparr>Answer := [r]\<rparr>, c'))
      else if QType state = TypeNS
      then Some (handleNSQuery gw now m state isRootZoneQuery c)
      else Some (setNegativeResponse gw now m state c))"

section \<open>The apex subtree (apex.go) and the dispatcher (gateway.go)\<close>

text \<open>
  What a call of \<open>ServeDNS\<close> does: hands the request to the next plugin, returns
  server failure with an error (nothing written), writes a message and returns a code,
  or panics.
\<close>

datatype serve_result =
    NextHandler
  | NotSynced
  | Written int msg
  | ServePanicked

definition newReply :: msg where
  "newReply = \<lparr>Rcode = RcodeSuccess, Authoritative = False, Answer = [], Ns = [], Extra = []\<rparr>"

text \<open>The loop of \<open>serveSubApex\<close> over the callback's records: every record gets the SOA
  TTL and the query name, and is appended when its type is the queried address type.\<close>

fun subApexAnswers :: "gateway \<Rightarrow> request \<Rightarrow> rr list \<Rightarrow> rr list" where
  "subApexAnswers gw state [] = []"
| "subApexAnswers gw state (rr # rest) =
     (let rr = rr\<lparr>Hdr_Ttl := ttlSOA gw, Hdr_Name := QName state\<rparr>
      in if QType state = TypeA \<and> Hdr_Rrtype rr = TypeA then rr # subApexAnswers gw state rest
         else if QType state = TypeAAAA \<and> Hdr_Rrtype rr = TypeAAAA
         then rr # subApexAnswers gw state rest
         else subApexAnswers gw state rest)"

definition subApexNameError ::
  "gateway \<Rightarrow> int64 \<Rightarrow> msg \<Rightarrow> request \<Rightarrow> serial_cell \<Rightarrow> serve_result \<times> serial_cell" where
  "subApexNameError gw now m state c =
     (case soa gw now state c of
        (r, c') \<Rightarrow> (Written 0 (m\<lparr>Rcode := RcodeNameError, Ns := [r]\<rparr>), c'))"

definition serveSubApex ::
  "gateway \<Rightarrow> int64 \<Rightarrow> request \<Rightarrow> serial_cell \<Rightarrow> serve_result \<times> serial_cell" where
  "serveSubApex gw now state c =
     (let base = (case TrimZone (Name state) (Zone state) of None \<Rightarrow> [] | Some b \<Rightarrow> b);
          m = newReply\<lparr>Authoritative := True\<rparr>
      in if CountLabel base = 2
         then if base \<noteq> apex gw then subApexNameError gw now m state c
              else (let m = m\<lparr>Answer := subApexAnswers gw state (ExternalAddrFunc gw state)\<rparr>
                    in if length (Answer m) = 0
                       then (case soa gw now state c of
                               (r, c') \<Rightarrow> (Written 0 (m\<lparr>Ns := [r]\<rparr>), c'))
                       else (Written 0 m, c))
         else subApexNameError gw now m state c)"

text \<open>
  \<open>checkApexQuery\<close> returns \<open>isRootZone\<close>, \<open>handled\<close> and, when it has served the
  request through \<open>serveSubApex\<close>, what that call did.  The function recurses over
  \<open>gw.Zones\<close> as the \<open>for\<close> loop does.
\<close>

fun checkApexQuery_loop ::
  "gateway \<Rightarrow> int64 \<Rightarrow> request \<Rightarrow> serial_cell \<Rightarrow> string list \<Rightarrow>
     bool \<times> bool \<times> serve_result option \<times> serial_cell" where
  "checkApexQuery_loop gw now state c [] = (False, False, None, c)"
| "checkApexQuery_loop gw now state c (z # zs) =
     (if Name state = z then (True, False, None, c)
      else if IsSubDomain (apex gw @ ''.'' @ z) (Name state)
      then (case serveSubApex gw now state c of (ret, c') \<Rightarrow> (False, True, Some ret, c'))
      else checkApexQuery_loop gw now state c zs)"

definition checkApexQuery ::
  "gateway \<Rightarrow> int64 \<Rightarrow> request \<Rightarrow> serial_cell \<Rightarrow>
     bool \<times> bool \<times> serve_result option \<times> serial_cell" where
  "checkApexQuery gw now state c = checkApexQuery_loop gw now state c (Zones gw)"

text \<open>\<open>validateQueryZone\<close>; \<open>qname[len(qname)-len(zone):]\<close> would panic on a zone longer
  than the name, the outer \<open>None\<close>.\<close>

definition validateQueryZone :: "gateway \<Rightarrow> string \<Rightarrow> (string \<times> bool) option" where
  "validateQueryZone gw qname =
     (let zone = Matches (Zones gw) qname
      in if zone = [] then Some ([], False)
         else if length zone > length qname then None
         else Some (drop (length qname - length zone) qname, True))"

text \<open>\<open>Fall.Through\<close> of CoreDNS.\<close>

definition Through :: "gateway \<Rightarrow> string \<Rightarrow> bool" where
  "Through gw qname = (Matches (FallZones gw) qname \<noteq> [])"

definition ServeDNS ::
  "gateway \<Rightarrow> int64 \<Rightarrow> serial_cell \<Rightarrow> question option \<Rightarrow> serve_result \<times> serial_cell" where
  "ServeDNS gw now c r =
     (let state = \<lparr>Req = r, Zone = []\<rparr>;
          qname = QName state
      in case validateQueryZone gw qname of
           None \<Rightarrow> (ServePanicked, c)
         | Some (zone, validZone) \<Rightarrow>
             if \<not> validZone then (NextHandler, c)
             else
               let state = state\<lparr>Zone := zone\<rparr>
               in case getQueryIndexKeySets qname zone of
                    None \<Rightarrow> (ServePanicked, c)
                  | Some indexKeySets \<Rightarrow>
                      if \<not> hasSynced gw then (NotSynced, c)
                      else
                        (case checkApexQuery gw now state c of
                           (isRootZoneQuery, handled, ret, c1) \<Rightarrow>
                             if handled
                             then (case ret of Some res \<Rightarrow> (res, c1)
                                   | None \<Rightarrow> (Written 0 newReply, c1))
                             else
                               (case getMatchingAddressesWithCNAME gw indexKeySets of
                                  (addrs, raws, cnames) \<Rightarrow>
                                    let noDataFound =
                                          (length addrs = 0 \<and> length raws = 0 \<and> length cnames = 0)
                                    in if noDataFound \<and> Through gw qname then (NextHandler, c1)
                                       else
                                         (case processQueryResponse gw now newReply state
                                                 (filter Is4 addrs) (filter Is6 addrs) raws cnames
                                                 isRootZoneQuery noDataFound c1 of
                                            None \<Rightarrow> (ServePanicked, c1)
                                          | Some (m, c2) \<Rightarrow>
                                              let m = m\<lparr>Authoritative := True\<rparr>
                                              in if Rcode m = RcodeNameError
                                                 then (Written (Rcode m) m, c2)
                                                 else (Written RcodeSuccess m, c2)))))"

text \<open>\<open>SelfAddress\<close>, the default external-address callback.\<close>

definition SelfAddress :: "gateway \<Rightarrow> request \<Rightarrow> rr list" where
  "SelfAddress gw state =
     (let addrs1 = concat (map (\<lambda>resource. fst (res_lookup resource [apex gw])) (Resources gw));
          addrs2 = concat (map (\<lambda>resource. fst (res_lookup resource [secondNS gw])) (Resources gw))
      in A gw (apex gw @ ''.'' @ Zone state) addrs1 @
         (if QType state = TypeNS then A gw (secondNS gw @ ''.'' @ Zone state) addrs2 else []))"

text \<open>"Non-empty" for a triple, in the words of the spec: its addresses, texts or cnames
  is non-empty.\<close>

definition hasData :: "addr list \<times> string list \<times> string list \<Rightarrow> bool" where
  "hasData t = (case t of (addrs, raws, cnames) \<Rightarrow> addrs \<noteq> [] \<or> raws \<noteq> [] \<or> cnames \<noteq> [])"

section \<open>Zone transfer (xfr.go)\<close>

text \<open>
  The functions and constants of the package that the transfer code calls and that are
  not among the sources are parameters of the model, together with \<open>netip.ParseAddr\<close>
  (\<open>None\<close> for its error).
\<close>

record kube_helpers =
  checkIgnoreLabel :: "(string \<rightharpoonup> string) \<Rightarrow> bool"
  fetchIngressLoadBalancerIPs :: "lb_ingress list \<Rightarrow> addr list"
  fetchServiceLoadBalancerIPs :: "lb_ingress list \<Rightarrow> addr list"
  lookupGateways :: "k8s_object list \<Rightarrow> parent_ref list \<Rightarrow> string \<Rightarrow> string list \<Rightarrow> addr list"
  ParseAddr :: "string \<Rightarrow> addr option"
  hostnameAnnotationKey :: string
  externalDnsHostnameAnnotationKey :: string

text \<open>
  The map \<open>records\<close> from owner names to record groups is an association list with
  distinct keys; \<open>recordsGet\<close> reads a key (the empty group when absent) and
  \<open>recordsPut\<close> stores one.
\<close>

fun recordsGet :: "(string \<times> rr list) list \<Rightarrow> string \<Rightarrow> rr list" where
  "recordsGet [] key = []"
| "recordsGet ((k, rs) # rest) key = (if k = key then rs else recordsGet rest key)"

fun recordsPut :: "(string \<times> rr list) list \<Rightarrow> string \<Rightarrow> rr list \<Rightarrow> (string \<times> rr list) list" where
  "recordsPut [] key rs = [(key, rs)]"
| "recordsPut ((k, old) # rest) key rs =
     (if k = key then (k, rs) # rest else (k, old) # recordsPut rest key rs)"

definition addRecords ::
  "(string \<times> rr list) list \<Rightarrow> string \<Rightarrow> rr list \<Rightarrow> (string \<times> rr list) list" where
  "addRecords records key rrs =
     (if length rrs > 0 then recordsPut records key (recordsGet records key @ rrs)
      else records)"

definition ipv4Only :: "addr list \<Rightarrow> addr list" where
  "ipv4Only addrs = filter Is4 addrs"

definition ipv6Only :: "addr list \<Rightarrow> addr list" where
  "ipv6Only addrs = filter Is6 addrs"

definition contains :: "string list \<Rightarrow> string \<Rightarrow> bool" where
  "contains strs item = (item \<in> set strs)"

text \<open>\<open>strings.TrimSpace\<close> on ASCII white space.\<close>

definition isSpace :: "char \<Rightarrow> bool" where
  "isSpace c = (c = CHR '' '' \<or> (9 \<le> (of_char c :: nat) \<and> (of_char c :: nat) \<le> 13))"

definition TrimSpace :: "string \<Rightarrow> string" where
  "TrimSpace s = rev (dropWhile isSpace (rev (dropWhile isSpace s)))"

definition getServiceHostnames :: "kube_helpers \<Rightarrow> service_obj \<Rightarrow> string \<Rightarrow> string list" where
  "getServiceHostnames h service zone =
     (let hostnames =
            (case svc_Annotations service (hostnameAnnotationKey h) of
               Some hostname \<Rightarrow> Split hostname (CHR '','') | None \<Rightarrow> []);
          hostnames = hostnames @
            (case svc_Annotations service (externalDnsHostnameAnnotationKey h) of
               Some hostname \<Rightarrow> Split hostname (CHR '','') | None \<Rightarrow> []);
          hostnames =
            (if length hostnames = 0
             then hostnames @ [svc_Name service @ ''.'' @ svc_Namespace service @ ''.'' @ zone]
             else hostnames)
      in filter (\<lambda>h. h \<noteq> []) (map TrimSpace hostnames))"

text \<open>The two \<open>addRecords\<close> calls every address-bearing host ends in.\<close>

definition addAddressRecords ::
  "gateway \<Rightarrow> (string \<times> rr list) list \<Rightarrow> string \<Rightarrow> addr list \<Rightarrow> (string \<times> rr list) list" where
  "addAddressRecords gw records fqdn addrs =
     addRecords (addRecords records fqdn (A gw fqdn (ipv4Only addrs)))
       fqdn (AAAA gw fqdn (ipv6Only addrs))"

definition transferIngresses ::
  "gateway \<Rightarrow> kube_helpers \<Rightarrow> (string \<times> rr list) list \<Rightarrow> string \<Rightarrow> (string \<times> rr list) list" where
  "transferIngresses gw h records zone =
     fold (\<lambda>ctrl records.
       fold (\<lambda>item records.
         case item of
           IngressObj ingress \<Rightarrow>
             if checkIgnoreLabel h (ing_Labels ingress) then records
             else if length (ingressClasses gw) > 0 \<and>
                     (case ing_IngressClassName ingress of
                        None \<Rightarrow> True
                      | Some ingressClass \<Rightarrow> \<not> contains (ingressClasses gw) ingressClass)
             then records
             else
               let addrs = fetchIngressLoadBalancerIPs h (ing_LoadBalancerIngress ingress)
               in if length addrs = 0 then records
                  else fold (\<lambda>host records.
                         if host = [] then records
                         else let hostname = ToLower host
                              in if \<not> HasSuffix hostname zone then records
                                 else addAddressRecords gw records (Fqdn hostname) addrs)
                       (ing_RuleHosts ingress) records
         | _ \<Rightarrow> records) ctrl records) (controllers gw) records"

definition transferServices ::
  "gateway \<Rightarrow> kube_helpers \<Rightarrow> (string \<times> rr list) list \<Rightarrow> string \<Rightarrow> (string \<times> rr list) list" where
  "transferServices gw h records zone =
     fold (\<lambda>ctrl records.
       fold (\<lambda>item records.
         case item of
           ServiceObj service \<Rightarrow>
             if checkIgnoreLabel h (svc_Labels service) then records
             else if svc_Type service \<noteq> ''LoadBalancer'' then records
             else
               let addrs =
                     (if length (svc_ExternalIPs service) > 0
                      then concat (map (\<lambda>ip. case ParseAddr h ip of
                                                Some addr \<Rightarrow> [addr] | None \<Rightarrow> [])
                                     (svc_ExternalIPs service))
                      else fetchServiceLoadBalancerIPs h (svc_LoadBalancerIngress service))
               in if length addrs = 0 then records
                  else fold (\<lambda>hostname records.
                         if \<not> HasSuffix hostname zone then records
                         else addAddressRecords gw records (Fqdn hostname) addrs)
                       (getServiceHostnames h service zone) records
         | _ \<Rightarrow> records) ctrl records) (controllers gw) records"

fun findGatewayController_loop :: "k8s_object list list \<Rightarrow> k8s_object list option" where
  "findGatewayController_loop [] = None"
| "findGatewayController_loop (c # cs) =
     (case c of
        GatewayObj g # rest \<Rightarrow> Some c
      | _ \<Rightarrow> findGatewayController_loop cs)"

definition findGatewayController :: "gateway \<Rightarrow> k8s_object list option" where
  "findGatewayController gw = findGatewayController_loop (controllers gw)"

text \<open>\<open>transferRouteResources\<close>: \<open>route\<close> is the \<open>routeInfo\<close> the three route loops
  build from a route object.\<close>

definition transferRouteResources ::
  "gateway \<Rightarrow> kube_helpers \<Rightarrow> (string \<times> rr list) list \<Rightarrow> string \<Rightarrow> k8s_object list \<Rightarrow>
     route_obj \<Rightarrow> (string \<times> rr list) list" where
  "transferRouteResources gw h records zone gwCtrl route =
     (if checkIgnoreLabel h (rt_Labels route) then records
      else
        let addrs = lookupGateways h gwCtrl (rt_ParentRefs route) (rt_Namespace route)
                      (gatewayClasses gw)
        in if length addrs = 0 then records
           else fold (\<lambda>hostname records.
                  let hostnameStr = ToLower hostname
                  in if \<not> HasSuffix hostnameStr zone then records
                     else addAddressRecords gw records (Fqdn hostnameStr) addrs)
                (rt_Hostnames route) records)"

definition transferHTTPRoutes ::
  "gateway \<Rightarrow> kube_helpers \<Rightarrow> (string \<times> rr list) list \<Rightarrow> string \<Rightarrow> (string \<times> rr list) list" where
  "transferHTTPRoutes gw h records zone =
     (case findGatewayController gw of
        None \<Rightarrow> records
      | Some gwCtrl \<Rightarrow>
          fold (\<lambda>ctrl records.
            fold (\<lambda>item records.
              case item of
                HTTPRouteObj httpRoute \<Rightarrow>
                  transferRouteResources gw h records zone gwCtrl httpRoute
              | _ \<Rightarrow> records) ctrl records) (controllers gw) records)"

definition transferTLSRoutes ::
  "gateway \<Rightarrow> kube_helpers \<Rightarrow> (string \<times> rr list) list \<Rightarrow> string \<Rightarrow> (string \<times> rr list) list" where
  "transferTLSRoutes gw h records zone =
     (case findGatewayController gw of
        None \<Rightarrow> records
      | Some gwCtrl \<Rightarrow>
          fold (\<lambda>ctrl records.
            fold (\<lambda>item records.
              case item of
                TLSRouteObj tlsRoute \<Rightarrow>
                  transferRouteResources gw h records zone gwCtrl tlsRoute
              | _ \<Rightarrow> records) ctrl records) (controllers gw) records)"

definition transferGRPCRoutes ::
  "gateway \<Rightarrow> kube_helpers \<Rightarrow> (string \<times> rr list) list \<Rightarrow> string \<Rightarrow> (string \<times> rr list) list" where
  "transferGRPCRoutes gw h records zone =
     (case findGatewayController gw of
        None \<Rightarrow> records
      | Some gwCtrl \<Rightarrow>
          fold (\<lambda>ctrl records.
            fold (\<lambda>item records.
              case item of
                GRPCRouteObj grpcRoute \<Rightarrow>
                  transferRouteResources gw h records zone gwCtrl grpcRoute
              | _ \<Rightarrow> records) ctrl records) (controllers gw) records)"

definition transferEndpoint ::
  "gateway \<Rightarrow> kube_helpers \<Rightarrow> string \<Rightarrow> endpoint \<Rightarrow> (string \<times> rr list) list \<Rightarrow>
     (string \<times> rr list) list" where
  "transferEndpoint gw h zone endpoint records =
     (let hostname = ToLower (ep_DNSName endpoint)
      in if \<not> HasSuffix hostname zone then records
         else
           let fqdn = Fqdn hostname
           in if ep_RecordType endpoint = ''A'' \<or> ep_RecordType endpoint = ''AAAA''
              then
                let addrs = concat (map (\<lambda>target. case ParseAddr h target of
                                                     Some addr \<Rightarrow> [addr] | None \<Rightarrow> [])
                                      (ep_Targets endpoint))
                in if ep_RecordType endpoint = ''A''
                   then addRecords records fqdn (A gw fqdn (ipv4Only addrs))
                   else addRecords records fqdn (AAAA gw fqdn (ipv6Only addrs))
              else if ep_RecordType endpoint = ''TXT''
              then addRecords records fqdn (TXT gw fqdn (ep_Targets endpoint))
              else records)"

definition transferDNSEndpoints ::
  "gateway \<Rightarrow> kube_helpers \<Rightarrow> (string \<times> rr list) list \<Rightarrow> string \<Rightarrow> (string \<times> rr list) list" where
  "transferDNSEndpoints gw h records zone =
     fold (\<lambda>ctrl records.
       fold (\<lambda>item records.
         case item of
           DNSEndpointObj dnsEndpoint \<Rightarrow>
             if checkIgnoreLabel h (de_Labels dnsEndpoint) then records
             else fold (transferEndpoint gw h zone) (de_Endpoints dnsEndpoint) records
         | _ \<Rightarrow> records) ctrl records) (controllers gw) records"

text \<open>
  \<open>transferResources\<close> returns the groups it sends on the channel, in order:
  \<open>sort.Strings\<close> is \<open>sort\<close> on byte strings (the keys of a map are distinct, so the
  order in which Go ranges over the map does not matter).
\<close>

definition collectRecords :: "gateway \<Rightarrow> kube_helpers \<Rightarrow> string \<Rightarrow> (string \<times> rr list) list" where
  "collectRecords gw h zone =
     fold (\<lambda>resource records.
       if res_name resource = ''Ingress'' then transferIngresses gw h records zone
       else if res_name resource = ''Service'' then transferServices gw h records zone
       else if res_name resource = ''HTTPRoute'' then transferHTTPRoutes gw h records zone
       else if res_name resource = ''TLSRoute'' then transferTLSRoutes gw h records zone
       else if res_name resource = ''GRPCRoute'' then transferGRPCRoutes gw h records zone
       else if res_name resource = ''DNSEndpoint'' then transferDNSEndpoints gw h records zone
       else records) (Resources gw) []"

definition transferResources :: "gateway \<Rightarrow> kube_helpers \<Rightarrow> string \<Rightarrow> rr list list" where
  "transferResources gw h zone =
     (if \<not> hasSynced gw then []
      else
        let records = collectRecords gw h zone;
            keys = sort (map fst records)
        in map (\<lambda>key. recordsGet records key) keys)"

text \<open>
  \<open>Transfer\<close> returns the error, or the sequence of groups its goroutine sends before
  it closes the channel, and the serial cell after its call of \<open>soa\<close>.
\<close>

datatype transfer_error = ErrNotAuthoritative

definition Transfer ::
  "gateway \<Rightarrow> kube_helpers \<Rightarrow> int64 \<Rightarrow> serial_cell \<Rightarrow> string \<Rightarrow> uint32 \<Rightarrow>
     (transfer_error + rr list list) \<times> serial_cell" where
  "Transfer gw h now c zone serial =
     (let match = Matches (Zones gw) zone
      in if match = [] then (Inl ErrNotAuthoritative, c)
         else
           let state = \<lparr>Req = None, Zone = zone\<rparr>
           in case soa gw now state c of
                (soaRecord, c') \<Rightarrow>
                  if serial \<noteq> 0 \<and> Serial soaRecord = serial then (Inr [[soaRecord]], c')
                  else
                    let nsRecords = nameservers gw state;
                        nsAddrs = ExternalAddrFunc gw state
                    in (Inr ([[soaRecord]] @ map (\<lambda>ns. [ns]) nsRecords @
                             (if length nsAddrs > 0 then [nsAddrs] else []) @
                             transferResources gw h zone @ [[soaRecord]]),
                        c'))"

text \<open>The owner name of a group: the name of its first record.\<close>

definition groupOwner :: "rr list \<Rightarrow> string" where
  "groupOwner g = Hdr_Name (hd g)"

text \<open>The shape of the \<open>records\<close> map: distinct keys, and under each key a non-empty
  group of records that all carry the key as their name.\<close>

definition wfRecords :: "(string \<times> rr list) list \<Rightarrow> bool" where
  "wfRecords records =
     (distinct (map fst records) \<and>
      (\<forall>(k, rs) \<in> set records. rs \<noteq> [] \<and> (\<forall>r \<in> set rs. Hdr_Name r = k)))"

section \<open>TTL classes of the records in a response\<close>

text \<open>
  The classes of the spec's TTL invariant: an A, AAAA, TXT or CNAME record with the low
  TTL; an SOA or NS record with the SOA TTL; and a nameserver address record, that is a
  record of the external-address callback to which the plugin has given the SOA TTL
  (in the extras of an NS answer) and also the query name (in a sub-apex answer).
\<close>

definition lowTTLRecord :: "gateway \<Rightarrow> rr \<Rightarrow> bool" where
  "lowTTLRecord gw r =
     ((Hdr_Rrtype r = TypeA \<or> Hdr_Rrtype r = TypeAAAA \<or> Hdr_Rrtype r = TypeTXT \<or>
       Hdr_Rrtype r = TypeCNAME) \<and> Hdr_Ttl r = ttlLow gw)"

definition soaTTLRecord :: "gateway \<Rightarrow> rr \<Rightarrow> bool" where
  "soaTTLRecord gw r =
     ((Hdr_Rrtype r = TypeSOA \<or> Hdr_Rrtype r = TypeNS) \<and> Hdr_Ttl r = ttlSOA gw)"

definition nameserverAddress :: "gateway \<Rightarrow> request \<Rightarrow> rr \<Rightarrow> bool" where
  "nameserverAddress gw state r =
     (Hdr_Ttl r = ttlSOA gw \<and>
      (r \<in> set (map (\<lambda>r0. r0\<lparr>Hdr_Ttl := ttlSOA gw\<rparr>) (ExternalAddrFunc gw state)) \<or>
       r \<in> set (map (\<lambda>r0. r0\<lparr>Hdr_Ttl := ttlSOA gw, Hdr_Name := QName state\<rparr>)
                   (ExternalAddrFunc gw state))))"

text \<open>The sections of a reply built on the regular path hold records of these classes.\<close>

definition sectionsOK :: "gateway \<Rightarrow> request \<Rightarrow> msg \<Rightarrow> bool" where
  "sectionsOK gw st m =
     ((\<forall>r \<in> set (Answer m). lowTTLRecord gw r \<or> soaTTLRecord gw r) \<and>
      (\<forall>r \<in> set (Ns m). Hdr_Rrtype r = TypeSOA \<and> Hdr_Ttl r = ttlSOA gw) \<and>
      (\<forall>r \<in> set (Extra m). nameserverAddress gw st r))"

section \<open>An example configuration\<close>

text \<open>
  A gateway in the style of the plugin's tests: one zone, an Ingress table with a
  wildcard host, an explicit host below it and an IPv4-only host, a DNSEndpoint table
  with a CNAME loop, the test callback for the nameserver address, a low TTL of 30
  (\<open>ttl 30\<close>) and a secondary nameserver label.
\<close>

definition exampleIngressLookup :: lookupFunc where
  "exampleIngressLookup indexKeys =
     (concat (map (\<lambda>key.
        if ToLower key = ''*.w.example.com'' then [Addr4 0xC0000006]
        else if ToLower key = ''s.w.example.com'' then [Addr4 0xC0000007]
        else if ToLower key = ''svc2.ns1.example.com'' then [Addr4 0xC0000002]
        else []) indexKeys), [], [])"

definition exampleEndpointLookup :: lookupFunc where
  "exampleEndpointLookup indexKeys =
     ([], [], concat (map (\<lambda>key.
        if ToLower key = ''loop1.example.com'' then [''loop2.example.com'']
        else if ToLower key = ''loop2.example.com'' then [''loop1.example.com'']
        else []) indexKeys))"

definition selfAddressTest :: "request \<Rightarrow> rr list" where
  "selfAddressTest state =
     [\<lparr>Hdr_Name = ''dns1.kube-system.example.com.'', Hdr_Rrtype = TypeA,
       Hdr_Class = ClassINET, Hdr_Ttl = 3600, Rdata = A_data (Addr4 0x7F000001)\<rparr>]"

definition exampleGateway :: gateway where
  "exampleGateway =
     \<lparr>Zones = [''example.com.''],
      Resources = [\<lparr>res_name = ''Ingress'', res_lookup = exampleIngressLookup\<rparr>,
                   \<lparr>res_name = ''DNSEndpoint'', res_lookup = exampleEndpointLookup\<rparr>],
      ttlLow = 30, ttlSOA = 60, hasSynced = True,
      apex = ''dns1.kube-system'', hostmaster = ''hostmaster'',
      secondNS = ''dns2.kube-system'',
      ExternalAddrFunc = selfAddressTest,
      CNAMEMaxDepth = 3, FallZones = [],
      soaRefresh = 7200, soaRetry = 1800, soaExpire = 86400,
      controllers = [], ingressClasses = [], gatewayClasses = []\<rparr>"

definition exampleCell :: serial_cell where
  "exampleCell = \<lparr>lastSerial = 1700000000, dirty = True\<rparr>"

definition exampleState :: request where
  "exampleState = \<lparr>Req = None, Zone = ''example.com.''\<rparr>"

text \<open>
  A cluster for a zone transfer: two LoadBalancer services, stored in the order
  \<open>web\<close>, \<open>api\<close>, and stand-ins for the helper functions.
\<close>

definition exampleKube :: kube_helpers where
  "exampleKube =
     \<lparr>checkIgnoreLabel = (\<lambda>labels. labels ''k8s-gateway.dns/ignore'' = Some ''true''),
      fetchIngressLoadBalancerIPs = (\<lambda>lb. []),
      fetchServiceLoadBalancerIPs =
        (\<lambda>lb. concat (map (\<lambda>(ip, hostname).
                 if ip = ''192.0.1.1'' then [Addr4 0xC0000101]
                 else if ip = ''192.0.1.2'' then [Addr4 0xC0000102]
                 else []) lb)),
      lookupGateways = (\<lambda>gwCtrl parentRefs ns classes. []),
      ParseAddr = (\<lambda>s. None),
      hostnameAnnotationKey = ''coredns.io/hostname'',
      externalDnsHostnameAnnotationKey = ''external-dns.alpha.kubernetes.io/hostname''\<rparr>"

definition exampleService :: "string \<Rightarrow> string \<Rightarrow> k8s_object" where
  "exampleService n ip =
     ServiceObj \<lparr>svc_Labels = Map.empty, svc_Annotations = Map.empty, svc_Name = n,
                 svc_Namespace = ''ns1'', svc_Type = ''LoadBalancer'', svc_ExternalIPs = [],
                 svc_LoadBalancerIngress = [(ip, [])]\<rparr>"

definition exampleTransferGateway :: gateway where
  "exampleTransferGateway =
     exampleGateway
       \<lparr>Resources := [\<lparr>res_name = ''Service'', res_lookup = noop\<rparr>],
        controllers := [[exampleService ''web'' ''192.0.1.1'',
                         exampleService ''api'' ''192.0.1.2'']]\<rparr>"

section \<open>Theorems\<close>

subsection \<open>split255\<close>

lemma split255_loop_multiple:
  "length s = p + 255 * m \<Longrightarrow>
   split255_loop s p (p + 255) sx =
     sx @ map (\<lambda>j. take 255 (drop (p + 255 * j) s)) [0..<m] @ [[]]"
proof (induction m arbitrary: p sx)
  case 0
  then show ?case
    by (subst split255_loop.simps) simp
next
  case (Suc m)
  have len: "length s = (p + 255) + 255 * m"
    using Suc.prems by simp
  have shift: "map (\<lambda>j. take 255 (drop (p + 255 * j) s)) [0..<Suc m] =
        take 255 (drop p s) # map (\<lambda>j. take 255 (drop (p + 255 + 255 * j) s)) [0..<m]"
    by (simp add: upt_conv_Cons map_Suc_upt [symmetric] add.assoc del: upt_Suc)
  have "split255_loop s p (p + 255) sx =
        split255_loop s (p + 255) (p + 255 + 255) (sx @ [take 255 (drop p s)])"
    using Suc.prems by (subst split255_loop.simps) simp
  also have "\<dots> = (sx @ [take 255 (drop p s)]) @
        map (\<lambda>j. take 255 (drop (p + 255 + 255 * j) s)) [0..<m] @ [[]]"
    by (rule Suc.IH [OF len])
  finally show ?case
    by (simp only: shift append_assoc append_Cons append_Nil)
qed

lemma concat_chunks:
  "length s = p + 255 * m \<Longrightarrow>
   concat (map (\<lambda>j. take 255 (drop (p + 255 * j) s)) [0..<m]) = drop p s"
proof (induction m arbitrary: p)
  case 0
  then show ?case by simp
next
  case (Suc m)
  have len: "length s = (p + 255) + 255 * m"
    using Suc.prems by simp
  have shift: "map (\<lambda>j. take 255 (drop (p + 255 * j) s)) [0..<Suc m] =
        take 255 (drop p s) # map (\<lambda>j. take 255 (drop (p + 255 + 255 * j) s)) [0..<m]"
    by (simp add: upt_conv_Cons map_Suc_upt [symmetric] add.assoc del: upt_Suc)
  have step: "concat (map (\<lambda>j. take 255 (drop (p + 255 * j) s)) [0..<Suc m]) =
        take 255 (drop p s) @ drop (p + 255) s"
    unfolding shift using Suc.IH [OF len] by simp
  have glue: "take 255 (drop p s) @ drop (p + 255) s = drop p s"
    by (metis append_take_drop_id drop_drop add.commute)
  from step glue show ?case by (rule trans)
qed

lemma split255_multiple_eq:
  assumes "length s = 255 * k"
  shows "split255 s = (if k = 0 then [s] else map (\<lambda>j. take 255 (drop (255 * j) s)) [0..<k] @ [[]])"
proof (cases "k = 0")
  case True
  then show ?thesis using assms by (simp add: split255_def)
next
  case False
  have len: "length s = 0 + 255 * k" using assms by simp
  have ge: "\<not> length s < 255" using assms False by simp
  have "split255 s = split255_loop s 0 (0 + 255) []"
    using ge by (simp add: split255_def)
  also have "\<dots> = [] @ map (\<lambda>j. take 255 (drop (0 + 255 * j) s)) [0..<k] @ [[]]"
    by (rule split255_loop_multiple [OF len])
  finally show ?thesis using False by simp
qed

text \<open>
  C10.  A string whose length is a positive multiple of 255 is split into that many full
  255-byte segments followed by one empty segment, and the segments concatenate to the
  string: a 255-byte TXT value becomes the 255-byte string plus an empty string.
\<close>

theorem split255_exact_multiple:
  "length s = 255 * k \<Longrightarrow> 1 \<le> k \<Longrightarrow>
   split255 s = map (\<lambda>j. take 255 (drop (255 * j) s)) [0..<k] @ [[]] \<and>
   length (split255 s) = k + 1 \<and>
   (\<forall>j < k. length (split255 s ! j) = 255) \<and>
   last (split255 s) = [] \<and>
   concat (split255 s) = s"
proof -
  assume len: "length s = 255 * k" and k: "1 \<le> k"
  have eq: "split255 s = map (\<lambda>j. take 255 (drop (255 * j) s)) [0..<k] @ [[]]"
    using split255_multiple_eq [OF len] k by simp
  have full: "\<forall>j < k. length (split255 s ! j) = 255"
  proof (intro allI impI)
    fix j assume j: "j < k"
    have "255 * j + 255 \<le> length s" using j len by simp
    then show "length (split255 s ! j) = 255"
      using j by (simp add: eq nth_append)
  qed
  have cat: "concat (split255 s) = s"
    using concat_chunks [of s 0 k] len by (simp add: eq)
  show ?thesis
    using eq full cat by simp
qed

theorem split255_exact_multiple_witness:
  "length (replicate 255 (CHR ''a'')) = 255 * 1 \<and> (1::nat) \<le> 1 \<and>
   split255 (replicate 255 (CHR ''a'')) = [replicate 255 (CHR ''a''), []] \<and>
   concat (split255 (replicate 255 (CHR ''a''))) = replicate 255 (CHR ''a'')"
  using split255_exact_multiple [of "replicate 255 (CHR ''a'')" 1] by simp

subsection \<open>The lookup pipeline\<close>

lemma find_append_cases:
  "List.find P (xs @ ys) = (case List.find P xs of None \<Rightarrow> List.find P ys | Some x \<Rightarrow> Some x)"
  by (induction xs) auto

lemma lookupResources_find:
  "lookupResources rs ks = List.find hasData (map (\<lambda>r. res_lookup r ks) rs)"
  by (induction rs) (auto simp: hasData_def split: prod.splits)

lemma getMatching_find:
  "getMatchingAddressesWithCNAME gw kss =
     (case List.find hasData (concat (map (\<lambda>ks. map (\<lambda>r. res_lookup r ks) (Resources gw)) kss)) of
        Some t \<Rightarrow> t | None \<Rightarrow> ([], [], []))"
  by (induction kss) (auto simp: lookupResources_find find_append_cases split: option.splits)

lemma Split_not_Nil: "Split s c \<noteq> []"
  by (cases s) (auto split: list.splits)

lemma length_Join_last: "length z \<le> length (Join (xs @ [z]) sep)"
proof (induction xs)
  case Nil
  then show ?case by simp
next
  case (Cons x xs)
  then show ?case by (cases xs) auto
qed

lemma Join_two_not_Nil: "xs \<noteq> [] \<Longrightarrow> sep \<noteq> [] \<Longrightarrow> Join (xs @ [z]) sep \<noteq> []"
proof (cases xs)
  case Nil
  assume "xs \<noteq> []"
  with Nil show ?thesis by simp
next
  case (Cons x ys)
  assume "sep \<noteq> []"
  with Cons show ?thesis by (cases ys) auto
qed

lemma toWildcardQName_Some:
  assumes "length zone \<le> length qName"
  shows "\<exists>w. toWildcardQName qName zone = Some w \<and> w \<noteq> [] \<and> length zone \<le> length w"
proof -
  obtain zl where zl: "stripDomain qName zone = Some zl"
    using assms by (simp add: stripDomain_def)
  let ?parts = "(Split zl (CHR ''.''))[0 := ''*'']"
  have ne: "?parts \<noteq> []" using Split_not_Nil [of zl "CHR ''.''"] by simp
  have w: "toWildcardQName qName zone = Some (Join (?parts @ [zone]) ''.'')"
    using zl Split_not_Nil [of zl "CHR ''.''"] by (simp add: toWildcardQName_def Let_def)
  show ?thesis
    using w Join_two_not_Nil [OF ne, of "''.''" zone] length_Join_last [of zone ?parts "''.''"]
    by simp
qed

lemma getQueryIndexKeys_Some:
  "length zone \<le> length qName \<Longrightarrow> \<exists>ks. getQueryIndexKeys qName zone = Some ks"
  by (simp add: getQueryIndexKeys_def stripDomain_def Let_def)

lemma getQueryIndexKeySets_two:
  assumes "length zone \<le> length qName"
  shows "\<exists>specific w wildcard.
           getQueryIndexKeys qName zone = Some specific \<and>
           toWildcardQName qName zone = Some w \<and>
           getQueryIndexKeys w zone = Some wildcard \<and>
           getQueryIndexKeySets qName zone = Some [specific, wildcard]"
proof -
  obtain specific where sp: "getQueryIndexKeys qName zone = Some specific"
    using getQueryIndexKeys_Some [OF assms] by blast
  obtain w where w: "toWildcardQName qName zone = Some w" "w \<noteq> []" "length zone \<le> length w"
    using toWildcardQName_Some [OF assms] by blast
  obtain wildcard where wc: "getQueryIndexKeys w zone = Some wildcard"
    using getQueryIndexKeys_Some [OF w(3)] by blast
  have "getQueryIndexKeySets qName zone = Some [specific, wildcard]"
    using sp w wc by (simp add: getQueryIndexKeySets_def)
  then show ?thesis using sp w wc by blast
qed

text \<open>
  C2.  For a query name at least as long as its zone (the dispatcher's zone is a suffix of
  the name), the key-set list is the specific key set followed by the wildcard key set.
  The pipeline returns the first triple with data in the probe sequence "specific keys on
  every table in configured order, then wildcard keys on every table in configured order",
  and the empty triple when no probe has data.  Hence, when any table has data under the
  specific keys, the result is the answer of the first such table under the specific keys,
  whatever the tables hold under the wildcard keys.
\<close>

theorem lookup_pipeline_specific_before_wildcard:
  "length zone \<le> length qName \<Longrightarrow>
   (\<exists>specific w wildcard.
      getQueryIndexKeys qName zone = Some specific \<and>
      toWildcardQName qName zone = Some w \<and>
      getQueryIndexKeys w zone = Some wildcard \<and>
      getQueryIndexKeySets qName zone = Some [specific, wildcard] \<and>
      getMatchingAddressesWithCNAME gw [specific, wildcard] =
        (case List.find hasData
                (map (\<lambda>r. res_lookup r specific) (Resources gw) @
                 map (\<lambda>r. res_lookup r wildcard) (Resources gw)) of
           Some t \<Rightarrow> t
         | None \<Rightarrow> ([], [], [])) \<and>
      ((\<exists>r \<in> set (Resources gw). hasData (res_lookup r specific)) \<longrightarrow>
         List.find hasData (map (\<lambda>r. res_lookup r specific) (Resources gw)) =
           Some (getMatchingAddressesWithCNAME gw [specific, wildcard])))"
proof -
  assume len: "length zone \<le> length qName"
  obtain specific w wildcard where keys:
    "getQueryIndexKeys qName zone = Some specific"
    "toWildcardQName qName zone = Some w"
    "getQueryIndexKeys w zone = Some wildcard"
    "getQueryIndexKeySets qName zone = Some [specific, wildcard]"
    using getQueryIndexKeySets_two [OF len] by blast
  have probe: "getMatchingAddressesWithCNAME gw [specific, wildcard] =
        (case List.find hasData
                (map (\<lambda>r. res_lookup r specific) (Resources gw) @
                 map (\<lambda>r. res_lookup r wildcard) (Resources gw)) of
           Some t \<Rightarrow> t
         | None \<Rightarrow> ([], [], []))"
    by (simp add: getMatching_find)
  have first: "(\<exists>r \<in> set (Resources gw). hasData (res_lookup r specific)) \<longrightarrow>
         List.find hasData (map (\<lambda>r. res_lookup r specific) (Resources gw)) =
           Some (getMatchingAddressesWithCNAME gw [specific, wildcard])"
  proof
    assume "\<exists>r \<in> set (Resources gw). hasData (res_lookup r specific)"
    then have "List.find hasData (map (\<lambda>r. res_lookup r specific) (Resources gw)) \<noteq> None"
      by (auto simp: find_None_iff)
    then show "List.find hasData (map (\<lambda>r. res_lookup r specific) (Resources gw)) =
           Some (getMatchingAddressesWithCNAME gw [specific, wildcard])"
      unfolding probe by (auto simp: find_append_cases)
  qed
  show ?thesis
    using keys probe first by blast
qed

theorem lookup_pipeline_specific_before_wildcard_witness:
  "length ''example.com.'' \<le> length ''s.w.example.com.'' \<and>
   getQueryIndexKeySets ''s.w.example.com.'' ''example.com.'' =
     Some [[''s.w.example.com'', ''s.w''], [''*.w.example.com'', ''*.w'']] \<and>
   hasData (exampleIngressLookup [''*.w.example.com'', ''*.w'']) \<and>
   getMatchingAddressesWithCNAME exampleGateway
     [[''s.w.example.com'', ''s.w''], [''*.w.example.com'', ''*.w'']] =
     ([Addr4 0xC0000007], [], [])"
proof -
  have len: "length ''example.com.'' \<le> length ''s.w.example.com.''" by simp
  have ks: "getQueryIndexKeySets ''s.w.example.com.'' ''example.com.'' =
     Some [[''s.w.example.com'', ''s.w''], [''*.w.example.com'', ''*.w'']]"
    by code_simp
  have wild: "hasData (exampleIngressLookup [''*.w.example.com'', ''*.w''])"
    by code_simp
  have spec: "res_lookup (hd (Resources exampleGateway)) [''s.w.example.com'', ''s.w''] =
        ([Addr4 0xC0000007], [], [])"
    by code_simp
  have mem: "hd (Resources exampleGateway) \<in> set (Resources exampleGateway)"
    by (simp add: exampleGateway_def)
  have first: "List.find hasData
        (map (\<lambda>r. res_lookup r [''s.w.example.com'', ''s.w'']) (Resources exampleGateway)) =
        Some ([Addr4 0xC0000007], [], [])"
    using spec by (simp add: exampleGateway_def hasData_def)
  from lookup_pipeline_specific_before_wildcard [OF len, of exampleGateway]
  obtain specific w wildcard where
      k: "getQueryIndexKeySets ''s.w.example.com.'' ''example.com.'' = Some [specific, wildcard]"
    and r: "(\<exists>r \<in> set (Resources exampleGateway). hasData (res_lookup r specific)) \<longrightarrow>
         List.find hasData (map (\<lambda>r. res_lookup r specific) (Resources exampleGateway)) =
           Some (getMatchingAddressesWithCNAME exampleGateway [specific, wildcard])"
    by blast
  have sp: "specific = [''s.w.example.com'', ''s.w'']"
    and wc: "wildcard = [''*.w.example.com'', ''*.w'']"
    using k ks by simp_all
  have "\<exists>r \<in> set (Resources exampleGateway). hasData (res_lookup r specific)"
    using mem spec unfolding sp by (intro bexI [of _ "hd (Resources exampleGateway)"])
                                    (simp_all add: hasData_def)
  then have "getMatchingAddressesWithCNAME exampleGateway [specific, wildcard] =
        ([Addr4 0xC0000007], [], [])"
    using r first unfolding sp by simp
  then show ?thesis
    using len ks wild unfolding sp wc by blast
qed

subsection \<open>The SOA serial\<close>

lemma word_succ_less: "x \<noteq> (- 1 :: uint32) \<Longrightarrow> x < x + 1"
  by (metis inc_less_eq_triv_imp linorder_less_linear word_le_less_eq)

lemma word_max_succ: "x < (y :: uint32) \<Longrightarrow> max y (x + 1) = y"
  by (simp add: max_absorb1 inc_le)

lemma Serial_soa: "Serial (fst (soa gw now st c)) = fst (calculateSerial now c)"
  by (simp add: soa_def Serial_def split: prod.splits)

lemma cell_soa: "snd (soa gw now st c) = snd (calculateSerial now c)"
  by (simp add: soa_def split: prod.splits)

lemma calculateSerial_clean:
  "\<not> dirty (snd (calculateSerial now c)) \<and>
   lastSerial (snd (calculateSerial now c)) = fst (calculateSerial now c)"
  by (simp add: calculateSerial_def Let_def)

lemma calculateSerial_not_dirty:
  "\<not> dirty c \<Longrightarrow> calculateSerial now c = (lastSerial c, c)"
  by (simp add: calculateSerial_def)

lemma calculateSerial_dirty:
  assumes d: "dirty c"
  shows "lastSerial c \<noteq> - 1 \<Longrightarrow>
           fst (calculateSerial now c) = max (ucast now) (lastSerial c + 1) \<and>
           lastSerial c < fst (calculateSerial now c)"
    and "lastSerial c = - 1 \<Longrightarrow> fst (calculateSerial now c) = 0"
proof -
  have val: "fst (calculateSerial now c) =
      (if (ucast now :: uint32) \<le> lastSerial c then lastSerial c + 1 else ucast now)"
    using d by (simp add: calculateSerial_def Let_def)
  show "lastSerial c = - 1 \<Longrightarrow> fst (calculateSerial now c) = 0"
    by (simp add: val)
  assume nm: "lastSerial c \<noteq> - 1"
  have lt: "lastSerial c < lastSerial c + 1"
    by (rule word_succ_less [OF nm])
  show "fst (calculateSerial now c) = max (ucast now) (lastSerial c + 1) \<and>
           lastSerial c < fst (calculateSerial now c)"
  proof (cases "(ucast now :: uint32) \<le> lastSerial c")
    case True
    then have "(ucast now :: uint32) < lastSerial c + 1" using lt by simp
    then have "max (ucast now) (lastSerial c + 1) = lastSerial c + 1"
      by (simp add: max_absorb2)
    then show ?thesis using True lt by (simp add: val)
  next
    case False
    then have "lastSerial c < ucast now" by simp
    then show ?thesis using False by (simp add: val word_max_succ)
  qed
qed

text \<open>
  C1 (as amended).  Two calls of \<open>soa\<close> with no \<open>markDirty\<close> between them return the
  same serial.  After \<open>markDirty\<close> the next call returns the maximum of the current Unix
  time, truncated to 32 bits, and the previous serial plus one, which is strictly greater
  than the previous serial, provided the previous serial is below \<open>2^32 - 1\<close>; from
  \<open>2^32 - 1\<close> the serial wraps to 0.
\<close>

theorem soa_serial_stable_then_increasing:
  "Serial (fst (soa gw t2 st2 (snd (soa gw t1 st1 c)))) = Serial (fst (soa gw t1 st1 c)) \<and>
   (Serial (fst (soa gw t1 st1 c)) \<noteq> 0xFFFFFFFF \<longrightarrow>
      Serial (fst (soa gw t2 st2 (markDirty (snd (soa gw t1 st1 c))))) =
        max (ucast t2) (Serial (fst (soa gw t1 st1 c)) + 1) \<and>
      Serial (fst (soa gw t1 st1 c)) <
        Serial (fst (soa gw t2 st2 (markDirty (snd (soa gw t1 st1 c)))))) \<and>
   (Serial (fst (soa gw t1 st1 c)) = 0xFFFFFFFF \<longrightarrow>
      Serial (fst (soa gw t2 st2 (markDirty (snd (soa gw t1 st1 c))))) = 0)"
proof -
  let ?c1 = "snd (calculateSerial t1 c)"
  let ?s1 = "fst (calculateSerial t1 c)"
  have clean: "\<not> dirty ?c1" "lastSerial ?c1 = ?s1"
    using calculateSerial_clean [of t1 c] by simp_all
  have same: "fst (calculateSerial t2 ?c1) = ?s1"
    using clean by (simp add: calculateSerial_not_dirty)
  have md: "dirty (markDirty ?c1)" "lastSerial (markDirty ?c1) = ?s1"
    using clean by (simp_all add: markDirty_def)
  have max32: "(0xFFFFFFFF :: uint32) = - 1" by simp
  have up: "?s1 \<noteq> - 1 \<Longrightarrow>
      fst (calculateSerial t2 (markDirty ?c1)) = max (ucast t2) (?s1 + 1) \<and>
      ?s1 < fst (calculateSerial t2 (markDirty ?c1))"
    using calculateSerial_dirty(1) [OF md(1), of t2] unfolding md(2) by blast
  have wrap: "?s1 = - 1 \<Longrightarrow> fst (calculateSerial t2 (markDirty ?c1)) = 0"
    using calculateSerial_dirty(2) [OF md(1), of t2] unfolding md(2) by blast
  show ?thesis
    unfolding Serial_soa cell_soa max32
  proof (intro conjI impI)
    show "fst (calculateSerial t2 ?c1) = ?s1" by (rule same)
    show "fst (calculateSerial t2 (markDirty ?c1)) = max (ucast t2) (?s1 + 1)"
      if "?s1 \<noteq> - 1" using up [OF that] by (rule conjunct1)
    show "?s1 < fst (calculateSerial t2 (markDirty ?c1))"
      if "?s1 \<noteq> - 1" using up [OF that] by (rule conjunct2)
    show "fst (calculateSerial t2 (markDirty ?c1)) = 0"
      if "?s1 = - 1" using wrap [OF that] .
  qed
qed

theorem soa_serial_stable_then_increasing_witness:
  "Serial (fst (soa exampleGateway 1800000000 exampleState exampleCell)) \<noteq> 0xFFFFFFFF \<and>
   Serial (fst (soa exampleGateway 1800000000 exampleState exampleCell)) <
     Serial (fst (soa exampleGateway 1800000000 exampleState
                   (markDirty (snd (soa exampleGateway 1800000000 exampleState exampleCell)))))"
proof -
  have h: "Serial (fst (soa exampleGateway 1800000000 exampleState exampleCell)) \<noteq> 0xFFFFFFFF"
    by code_simp
  show ?thesis
    using h soa_serial_stable_then_increasing
      [where gw = exampleGateway and ?t1.0 = 1800000000 and ?st1.0 = exampleState
         and ?t2.0 = 1800000000 and ?st2.0 = exampleState and c = exampleCell]
    by blast
qed

text \<open>
  The claim as stated fails when the serial has reached \<open>2^32 - 1\<close>: a call at Unix time
  4294967295 sets the serial to 4294967295; after \<open>markDirty\<close>, a call one second later
  returns 0, which is not greater.
\<close>

theorem soa_serial_wraps_counterexample:
  "Serial (fst (soa exampleGateway 4294967295 exampleState exampleCell)) = 4294967295 \<and>
   Serial (fst (soa exampleGateway 4294967296 exampleState
                  (markDirty (snd (soa exampleGateway 4294967295 exampleState exampleCell))))) = 0 \<and>
   \<not> (Serial (fst (soa exampleGateway 4294967295 exampleState exampleCell)) <
        Serial (fst (soa exampleGateway 4294967296 exampleState
                  (markDirty (snd (soa exampleGateway 4294967295 exampleState exampleCell))))))"
  by code_simp

subsection \<open>CNAME chain resolution\<close>

lemma resolve_depth_exhausted:
  "maxDepth \<le> 0 \<Longrightarrow>
   resolveCNAMEChainWithVisited gw cname zone maxDepth visited =
     (Failed DepthLimitReached, visited, [])"
  by (subst resolveCNAMEChainWithVisited.simps) simp

lemma resolve_revisit:
  "0 < maxDepth \<Longrightarrow> visited (canonicalizeDNSName cname) = Some True \<Longrightarrow>
   resolveCNAMEChainWithVisited gw cname zone maxDepth visited =
     (Failed LoopDetected, visited, [])"
  by (subst resolveCNAMEChainWithVisited.simps) (simp add: Let_def)

lemma resolve_cases:
  assumes run: "resolveCNAMEChainWithVisited gw cname zone maxDepth visited = (res, visited', marks)"
    and pos: "0 < maxDepth"
    and fresh: "visited (canonicalizeDNSName cname) \<noteq> Some True"
  shows "(marks = [(canonicalizeDNSName cname, maxDepth)] \<and>
          visited' = visited(canonicalizeDNSName cname := None)) \<or>
         (\<exists>ks addrs raws nextCnames visited2 marks2.
            getQueryIndexKeySets (canonicalizeDNSName cname) (canonicalizeDNSName zone) = Some ks \<and>
            getMatchingAddressesWithCNAME gw ks = (addrs, raws, nextCnames) \<and>
            \<not> 0 < length addrs \<and> 0 < length nextCnames \<and>
            resolveCNAMEChainWithVisited gw (hd nextCnames) (canonicalizeDNSName zone)
               (maxDepth - 1) (visited(canonicalizeDNSName cname \<mapsto> True)) = (res, visited2, marks2) \<and>
            visited' = visited2(canonicalizeDNSName cname := None) \<and>
            marks = (canonicalizeDNSName cname, maxDepth) # marks2)"
proof -
  let ?cc = "canonicalizeDNSName cname"
  let ?cz = "canonicalizeDNSName zone"
  have unfold: "resolveCNAMEChainWithVisited gw cname zone maxDepth visited =
     (case getQueryIndexKeySets ?cc ?cz of
        None \<Rightarrow> (Panicked, (visited(?cc \<mapsto> True))(?cc := None), [(?cc, maxDepth)])
      | Some indexKeySets \<Rightarrow>
          (case getMatchingAddressesWithCNAME gw indexKeySets of
             (addrs, raws, nextCnames) \<Rightarrow>
               if length addrs > 0
               then (Resolved addrs, (visited(?cc \<mapsto> True))(?cc := None), [(?cc, maxDepth)])
               else if length nextCnames > 0
               then (case resolveCNAMEChainWithVisited gw (hd nextCnames)
                            ?cz (maxDepth - 1) (visited(?cc \<mapsto> True)) of
                       (res, visited2, marks) \<Rightarrow>
                         (res, visited2(?cc := None), (?cc, maxDepth) # marks))
               else if \<not> HasSuffix ?cc ?cz
               then (Resolved [], (visited(?cc \<mapsto> True))(?cc := None), [(?cc, maxDepth)])
               else (Failed TargetNotFound, (visited(?cc \<mapsto> True))(?cc := None),
                     [(?cc, maxDepth)])))"
    using pos fresh
    by (subst resolveCNAMEChainWithVisited.simps)
       (simp only: Let_def if_False not_le [symmetric] simp_thms)
  show ?thesis
  proof (cases "getQueryIndexKeySets ?cc ?cz")
    case None
    then show ?thesis using run unfolding unfold by simp
  next
    case (Some ks)
    obtain addrs raws nextCnames
      where f: "getMatchingAddressesWithCNAME gw ks = (addrs, raws, nextCnames)"
      by (cases "getMatchingAddressesWithCNAME gw ks") auto
    show ?thesis
    proof (cases "0 < length addrs \<or> \<not> 0 < length nextCnames")
      case True
      then show ?thesis
        using run Some f unfolding unfold by (auto split: if_splits)
    next
      case False
      obtain r v2 m2 where rec:
        "resolveCNAMEChainWithVisited gw (hd nextCnames) ?cz (maxDepth - 1)
           (visited(?cc \<mapsto> True)) = (r, v2, m2)"
        by (cases "resolveCNAMEChainWithVisited gw (hd nextCnames) ?cz (maxDepth - 1)
                     (visited(?cc \<mapsto> True))") auto
      have "resolveCNAMEChainWithVisited gw cname zone maxDepth visited =
              (r, v2(?cc := None), (?cc, maxDepth) # m2)"
        unfolding unfold using Some f rec False by simp
      then show ?thesis
        using run Some f rec False by auto
    qed
  qed
qed

lemma resolve_marks:
 "resolveCNAMEChainWithVisited gw cname zone d visited = (res, visited', marks) \<Longrightarrow>
   int (length marks) \<le> max d 0 \<and> (\<forall>i<length marks. snd (marks ! i) = d - int i) \<and>
   distinct (map fst marks) \<and> (\<forall>n\<in>set (map fst marks). visited n \<noteq> Some True) \<and>
   (\<forall>n. (visited' n = Some True) = (visited n = Some True))"
proof (induction gw cname zone d visited arbitrary: res visited' marks
       rule: resolveCNAMEChainWithVisited.induct)
  case (1 gw cname zone maxDepth visited)
  let ?cc = "canonicalizeDNSName cname"
  let ?cz = "canonicalizeDNSName zone"
  show ?case
  proof (cases "maxDepth \<le> 0")
    case True
    then show ?thesis
      using "1.prems" by (simp add: resolve_depth_exhausted)
  next
    case False
    then have pos: "0 < maxDepth" by simp
    show ?thesis
    proof (cases "visited ?cc = Some True")
      case True
      then show ?thesis
        using "1.prems" pos by (simp add: resolve_revisit)
    next
      case fresh: False
      from resolve_cases [OF "1.prems" pos fresh]
      show ?thesis
      proof (elim disjE exE conjE)
        assume "marks = [(?cc, maxDepth)]"
          and "visited' = visited(?cc := None)"
        then show ?thesis using pos fresh by auto
      next
        fix ks addrs raws nextCnames visited2 marks2
        assume ks: "getQueryIndexKeySets ?cc ?cz = Some ks"
          and found: "getMatchingAddressesWithCNAME gw ks = (addrs, raws, nextCnames)"
          and na: "\<not> 0 < length addrs" and nc: "0 < length nextCnames"
          and rec: "resolveCNAMEChainWithVisited gw (hd nextCnames) ?cz (maxDepth - 1)
                      (visited(?cc \<mapsto> True)) = (res, visited2, marks2)"
          and v: "visited' = visited2(?cc := None)"
          and m: "marks = (?cc, maxDepth) # marks2"
        have found': "(addrs, raws, nextCnames) = getMatchingAddressesWithCNAME gw ks"
          using found by simp
        have IH: "int (length marks2) \<le> max (maxDepth - 1) 0 \<and>
            (\<forall>i<length marks2. snd (marks2 ! i) = maxDepth - 1 - int i) \<and>
            distinct (map fst marks2) \<and>
            (\<forall>n\<in>set (map fst marks2). (visited(?cc \<mapsto> True)) n \<noteq> Some True) \<and>
            (\<forall>n. (visited2 n = Some True) = ((visited(?cc \<mapsto> True)) n = Some True))"
          by (rule "1.IH" [OF False refl refl fresh refl refl ks found' refl na nc rec])
        have len: "int (length marks) \<le> max maxDepth 0"
          using IH pos m by simp
        have depth: "\<forall>i<length marks. snd (marks ! i) = maxDepth - int i"
          using IH m by (auto simp: nth_Cons split: nat.splits)
        have notin: "?cc \<notin> set (map fst marks2)"
          using IH by auto
        have dist: "distinct (map fst marks)"
          using IH m notin by simp
        have unvisited: "\<forall>n\<in>set (map fst marks). visited n \<noteq> Some True"
          using IH m fresh by (auto split: if_splits)
        have restored: "\<forall>n. (visited' n = Some True) = (visited n = Some True)"
          using IH v fresh by auto
        show ?thesis
          using len depth dist unvisited restored by blast
      qed
    qed
  qed
qed

text \<open>
  C3.  \<open>resolveCNAMEChainWithVisited\<close> is a total function: its recursion is accepted
  with the measure "remaining depth", so every call returns (addresses, an error, or the
  panic of \<open>stripDomain\<close>) for every target, zone, depth and visited map.  A call with
  depth 0 or less fails with the depth error.  A call whose canonical target is already
  marked visited fails with the loop error and does not recurse.  The calls that mark a
  name are at most \<open>maxDepth\<close>; the \<open>i\<close>-th of them runs at depth \<open>maxDepth - i\<close>,
  which is positive; the names they mark are pairwise distinct and none was marked
  before.  The visited map is left with the same marked names it was given.
\<close>

theorem cname_chain_bounded_and_loop_free:
  "resolveCNAMEChainWithVisited gw cname zone maxDepth visited = (res, visited', marks) \<Longrightarrow>
     (maxDepth \<le> 0 \<longrightarrow> res = Failed DepthLimitReached \<and> marks = []) \<and>
     (0 < maxDepth \<and> visited (canonicalizeDNSName cname) = Some True \<longrightarrow>
        res = Failed LoopDetected \<and> marks = []) \<and>
     int (length marks) \<le> max maxDepth 0 \<and>
     (\<forall>i<length marks. snd (marks ! i) = maxDepth - int i \<and> 0 < snd (marks ! i)) \<and>
     distinct (map fst marks) \<and>
     (\<forall>n\<in>set (map fst marks). visited n \<noteq> Some True) \<and>
     (\<forall>n. (visited' n = Some True) = (visited n = Some True))"
proof -
  assume run: "resolveCNAMEChainWithVisited gw cname zone maxDepth visited = (res, visited', marks)"
  note inv = resolve_marks [OF run]
  have d0: "maxDepth \<le> 0 \<longrightarrow> res = Failed DepthLimitReached \<and> marks = []"
    using run by (auto simp: resolve_depth_exhausted)
  have lp: "0 < maxDepth \<and> visited (canonicalizeDNSName cname) = Some True \<longrightarrow>
        res = Failed LoopDetected \<and> marks = []"
    using run by (auto simp: resolve_revisit)
  have depths: "\<forall>i<length marks. snd (marks ! i) = maxDepth - int i \<and> 0 < snd (marks ! i)"
  proof (intro allI impI)
    fix i assume i: "i < length marks"
    have "int (length marks) \<le> max maxDepth 0" using inv by blast
    then have "int i < maxDepth" using i by (simp add: max_def split: if_splits)
    moreover have "snd (marks ! i) = maxDepth - int i" using inv i by blast
    ultimately show "snd (marks ! i) = maxDepth - int i \<and> 0 < snd (marks ! i)" by simp
  qed
  show ?thesis
    using d0 lp depths inv by blast
qed

theorem cname_chain_bounded_and_loop_free_witness:
  "fst (resolveCNAMEChainWithVisited exampleGateway ''loop1.example.com'' ''example.com.'' 3 Map.empty)
     = Failed LoopDetected \<and>
   snd (snd (resolveCNAMEChainWithVisited exampleGateway ''loop1.example.com'' ''example.com.'' 3
               Map.empty)) = [(''loop1.example.com.'', 3), (''loop2.example.com.'', 2)] \<and>
   distinct (map fst (snd (snd (resolveCNAMEChainWithVisited exampleGateway ''loop1.example.com''
               ''example.com.'' 3 Map.empty))))"
proof -
  let ?run = "resolveCNAMEChainWithVisited exampleGateway ''loop1.example.com'' ''example.com.'' 3
                Map.empty"
  have r: "fst ?run = Failed LoopDetected" by code_simp
  have m: "snd (snd ?run) = [(''loop1.example.com.'', 3), (''loop2.example.com.'', 2)]"
    by code_simp
  have eq: "?run = (fst ?run, fst (snd ?run), snd (snd ?run))" by simp
  show ?thesis
    using r m cname_chain_bounded_and_loop_free [OF eq] by blast
qed

subsection \<open>The dispatcher\<close>

lemma checkApexQuery_loop_result:
  "checkApexQuery_loop gw now st c zs = (isRoot, handled, ret, c1) \<Longrightarrow>
   (if handled
    then \<not> isRoot \<and> ret = Some (fst (serveSubApex gw now st c)) \<and>
         c1 = snd (serveSubApex gw now st c)
    else ret = None \<and> c1 = c)"
  by (induction zs) (auto split: if_splits prod.splits)

lemma checkApexQuery_result:
  "checkApexQuery gw now st c = (isRoot, handled, ret, c1) \<Longrightarrow>
   (if handled
    then \<not> isRoot \<and> ret = Some (fst (serveSubApex gw now st c)) \<and>
         c1 = snd (serveSubApex gw now st c)
    else ret = None \<and> c1 = c)"
  unfolding checkApexQuery_def by (rule checkApexQuery_loop_result)

lemma ServeDNS_regular:
  assumes vz: "validateQueryZone gw (QName \<lparr>Req = r, Zone = []\<rparr>) = Some (zone, True)"
    and ks: "getQueryIndexKeySets (QName \<lparr>Req = r, Zone = []\<rparr>) zone = Some kss"
    and synced: "hasSynced gw"
    and apexq: "checkApexQuery gw now \<lparr>Req = r, Zone = zone\<rparr> c = (isRoot, False, ret, c1)"
    and found: "getMatchingAddressesWithCNAME gw kss = (addrs, raws, cnames)"
    and nofall: "\<not> ((addrs = [] \<and> raws = [] \<and> cnames = []) \<and>
                     Through gw (QName \<lparr>Req = r, Zone = []\<rparr>))"
  shows "ServeDNS gw now c r =
     (case processQueryResponse gw now newReply \<lparr>Req = r, Zone = zone\<rparr>
             (filter Is4 addrs) (filter Is6 addrs) raws cnames isRoot
             (addrs = [] \<and> raws = [] \<and> cnames = []) c of
        None \<Rightarrow> (ServePanicked, c)
      | Some (m, c2) \<Rightarrow>
          (Written (if Rcode m = RcodeNameError then RcodeNameError else RcodeSuccess)
                   (m\<lparr>Authoritative := True\<rparr>), c2))"
proof -
  have c1: "c1 = c" using checkApexQuery_result [OF apexq] by simp
  show ?thesis
    using vz ks synced apexq found nofall unfolding ServeDNS_def c1
    by (simp add: Let_def split: option.splits prod.splits)
qed

lemma ServeDNS_subapex:
  assumes vz: "validateQueryZone gw (QName \<lparr>Req = r, Zone = []\<rparr>) = Some (zone, True)"
    and synced: "hasSynced gw"
    and apexq: "checkApexQuery gw now \<lparr>Req = r, Zone = zone\<rparr> c = (isRoot, True, ret, c1)"
  shows "ServeDNS gw now c r = serveSubApex gw now \<lparr>Req = r, Zone = zone\<rparr> c"
proof -
  have len: "length zone \<le> length (QName \<lparr>Req = r, Zone = []\<rparr>)"
    using vz by (auto simp: validateQueryZone_def Let_def split: if_splits)
  obtain kss where ks: "getQueryIndexKeySets (QName \<lparr>Req = r, Zone = []\<rparr>) zone = Some kss"
    using getQueryIndexKeySets_two [OF len] by blast
  have res: "ret = Some (fst (serveSubApex gw now \<lparr>Req = r, Zone = zone\<rparr> c))"
       "c1 = snd (serveSubApex gw now \<lparr>Req = r, Zone = zone\<rparr> c)"
    using checkApexQuery_result [OF apexq] by simp_all
  show ?thesis
    using vz ks synced apexq unfolding ServeDNS_def res
    by (simp add: Let_def)
qed

lemma qtype_distinct [simp]:
  "TypeA \<noteq> TypeAAAA" "TypeAAAA \<noteq> TypeA" "TypeCNAME \<noteq> TypeA" "TypeCNAME \<noteq> TypeAAAA"
  "TypeCNAME \<noteq> TypeTXT" "TypeTXT \<noteq> TypeA" "TypeTXT \<noteq> TypeAAAA"
  by (simp_all add: TypeA_def TypeAAAA_def TypeCNAME_def TypeTXT_def)

lemma rcode_distinct [simp]: "RcodeSuccess \<noteq> RcodeNameError" "RcodeNameError \<noteq> RcodeSuccess"
  by (simp_all add: RcodeSuccess_def RcodeNameError_def)

text \<open>
  C6.  An AAAA query that reaches the type-specific assembly (its zone is served, the
  indexer has synced, the name is not in the apex subtree) and whose lookup result holds
  at least one IPv4 address, no IPv6 address and no CNAME is answered with code success,
  an empty answer section, only the SOA in the authority section and no extra records.
\<close>

theorem aaaa_ipv4_only_is_nodata:
  assumes vz: "validateQueryZone gw (QName \<lparr>Req = r, Zone = []\<rparr>) = Some (zone, True)"
    and ks: "getQueryIndexKeySets (QName \<lparr>Req = r, Zone = []\<rparr>) zone = Some kss"
    and synced: "hasSynced gw"
    and apexq: "checkApexQuery gw now \<lparr>Req = r, Zone = zone\<rparr> c = (isRoot, False, ret, c1)"
    and qt: "QType \<lparr>Req = r, Zone = zone\<rparr> = TypeAAAA"
    and found: "getMatchingAddressesWithCNAME gw kss = (addrs, raws, [])"
    and v4: "\<exists>a \<in> set addrs. Is4 a"
    and no6: "\<forall>a \<in> set addrs. \<not> Is6 a"
  shows "ServeDNS gw now c r =
           (Written RcodeSuccess
              \<lparr>Rcode = RcodeSuccess, Authoritative = True, Answer = [],
               Ns = [fst (soa gw now \<lparr>Req = r, Zone = zone\<rparr> c)], Extra = []\<rparr>,
            snd (soa gw now \<lparr>Req = r, Zone = zone\<rparr> c))"
proof -
  have ne: "addrs \<noteq> []" using v4 by auto
  have f6: "filter Is6 addrs = []" using no6 by (simp add: filter_empty_conv)
  have f4: "filter Is4 addrs \<noteq> []" using v4 by (simp add: filter_empty_conv)
  have nofall: "\<not> ((addrs = [] \<and> raws = [] \<and> [] = ([]::string list)) \<and>
                     Through gw (QName \<lparr>Req = r, Zone = []\<rparr>))"
    using ne by simp
  have pq: "processQueryResponse gw now newReply \<lparr>Req = r, Zone = zone\<rparr>
             (filter Is4 addrs) (filter Is6 addrs) raws [] isRoot
             (addrs = [] \<and> raws = [] \<and> [] = ([]::string list)) c =
        Some (\<lparr>Rcode = RcodeSuccess, Authoritative = False, Answer = [],
               Ns = [fst (soa gw now \<lparr>Req = r, Zone = zone\<rparr> c)], Extra = []\<rparr>,
              snd (soa gw now \<lparr>Req = r, Zone = zone\<rparr> c))"
    using qt f4 unfolding f6
    by (auto simp: processQueryResponse_def handleAddressQuery_def setNegativeResponse_def
          newReply_def split: prod.splits)
  show ?thesis
    unfolding ServeDNS_regular [OF vz ks synced apexq found nofall] pq by simp
qed

text \<open>
  C7.  An A or AAAA query that reaches the type-specific assembly, whose lookup result
  holds a CNAME and for whose first CNAME the chain resolution returns an error (loop,
  depth exhaustion, or a dead end in the zone), is answered with exactly one record, the
  first CNAME, in the answer section: no address record is added, and the code is success.
\<close>

theorem cname_kept_when_chain_fails:
  assumes vz: "validateQueryZone gw (QName \<lparr>Req = r, Zone = []\<rparr>) = Some (zone, True)"
    and ks: "getQueryIndexKeySets (QName \<lparr>Req = r, Zone = []\<rparr>) zone = Some kss"
    and synced: "hasSynced gw"
    and apexq: "checkApexQuery gw now \<lparr>Req = r, Zone = zone\<rparr> c = (isRoot, False, ret, c1)"
    and qt: "QType \<lparr>Req = r, Zone = zone\<rparr> = TypeA \<or> QType \<lparr>Req = r, Zone = zone\<rparr> = TypeAAAA"
    and found: "getMatchingAddressesWithCNAME gw kss = (addrs, raws, cnames)"
    and cn: "cnames \<noteq> []"
    and fail: "resolveCNAMEChain gw (hd cnames) zone (CNAMEMaxDepth gw) = Failed err"
  shows "ServeDNS gw now c r =
           (Written RcodeSuccess
              \<lparr>Rcode = RcodeSuccess, Authoritative = True,
               Answer = [CNAME gw (Name \<lparr>Req = r, Zone = zone\<rparr>) (hd cnames)],
               Ns = [], Extra = []\<rparr>,
            c)"
proof -
  have nofall: "\<not> ((addrs = [] \<and> raws = [] \<and> cnames = []) \<and>
                     Through gw (QName \<lparr>Req = r, Zone = []\<rparr>))"
    using cn by simp
  have pc: "\<And>v4 v6. processCNAMEWithResolution gw newReply \<lparr>Req = r, Zone = zone\<rparr> (hd cnames) v4 v6 =
        Some \<lparr>Rcode = RcodeSuccess, Authoritative = False,
               Answer = [CNAME gw (Name \<lparr>Req = r, Zone = zone\<rparr>) (hd cnames)],
               Ns = [], Extra = []\<rparr>"
    using fail by (simp add: processCNAMEWithResolution_def newReply_def)
  have ha: "\<And>as v4. handleAddressQuery gw now newReply \<lparr>Req = r, Zone = zone\<rparr> as cnames isRoot v4 c =
        Some (\<lparr>Rcode = RcodeSuccess, Authoritative = False,
               Answer = [CNAME gw (Name \<lparr>Req = r, Zone = zone\<rparr>) (hd cnames)],
               Ns = [], Extra = []\<rparr>, c)"
    using cn by (simp add: handleAddressQuery_def pc)
  have pq: "processQueryResponse gw now newReply \<lparr>Req = r, Zone = zone\<rparr>
             (filter Is4 addrs) (filter Is6 addrs) raws cnames isRoot
             (addrs = [] \<and> raws = [] \<and> cnames = []) c =
        Some (\<lparr>Rcode = RcodeSuccess, Authoritative = False,
               Answer = [CNAME gw (Name \<lparr>Req = r, Zone = zone\<rparr>) (hd cnames)],
               Ns = [], Extra = []\<rparr>, c)"
    using qt cn by (auto simp: processQueryResponse_def ha)
  show ?thesis
    unfolding ServeDNS_regular [OF vz ks synced apexq found nofall] pq by simp
qed

text \<open>
  C9 (as amended).  A CNAME query on a non-apex name that reaches the type-specific
  assembly, for which no table returns any data and which fall-through does not hand to
  the next plugin, is answered with an empty answer section and the SOA in the authority
  section; the response code is name error when the lower-case query name contains the
  substring \<open>nonexistent\<close>, and success otherwise.
\<close>

theorem cname_query_without_data:
  assumes vz: "validateQueryZone gw (QName \<lparr>Req = r, Zone = []\<rparr>) = Some (zone, True)"
    and ks: "getQueryIndexKeySets (QName \<lparr>Req = r, Zone = []\<rparr>) zone = Some kss"
    and synced: "hasSynced gw"
    and apexq: "checkApexQuery gw now \<lparr>Req = r, Zone = zone\<rparr> c = (False, False, ret, c1)"
    and qt: "QType \<lparr>Req = r, Zone = zone\<rparr> = TypeCNAME"
    and found: "getMatchingAddressesWithCNAME gw kss = ([], [], [])"
    and nofall: "\<not> Through gw (QName \<lparr>Req = r, Zone = []\<rparr>)"
  shows "ServeDNS gw now c r =
           (Written (if Contains (ToLower (Name \<lparr>Req = r, Zone = zone\<rparr>)) ''nonexistent''
                     then RcodeNameError else RcodeSuccess)
              \<lparr>Rcode = (if Contains (ToLower (Name \<lparr>Req = r, Zone = zone\<rparr>)) ''nonexistent''
                         then RcodeNameError else RcodeSuccess),
               Authoritative = True, Answer = [],
               Ns = [fst (soa gw now \<lparr>Req = r, Zone = zone\<rparr> c)], Extra = []\<rparr>,
            snd (soa gw now \<lparr>Req = r, Zone = zone\<rparr> c))"
proof -
  have nf: "\<not> ((([]::addr list) = [] \<and> ([]::string list) = [] \<and> ([]::string list) = []) \<and>
                     Through gw (QName \<lparr>Req = r, Zone = []\<rparr>))"
    using nofall by simp
  have pq: "processQueryResponse gw now newReply \<lparr>Req = r, Zone = zone\<rparr>
             (filter Is4 []) (filter Is6 []) [] [] False
             (([]::addr list) = [] \<and> ([]::string list) = [] \<and> ([]::string list) = []) c =
        Some (\<lparr>Rcode = (if Contains (ToLower (Name \<lparr>Req = r, Zone = zone\<rparr>)) ''nonexistent''
                         then RcodeNameError else RcodeSuccess),
               Authoritative = False, Answer = [],
               Ns = [fst (soa gw now \<lparr>Req = r, Zone = zone\<rparr> c)], Extra = []\<rparr>,
              snd (soa gw now \<lparr>Req = r, Zone = zone\<rparr> c))"
    using qt
    by (simp add: processQueryResponse_def handleCNAMEQuery_def setNegativeResponse_def
          newReply_def split: prod.splits)
  show ?thesis
    unfolding ServeDNS_regular [OF vz ks synced apexq found nf] pq by simp
qed


theorem aaaa_ipv4_only_is_nodata_witness:
  "validateQueryZone exampleGateway ''svc2.ns1.example.com.'' = Some (''example.com.'', True) \<and>
   getMatchingAddressesWithCNAME exampleGateway
     [[''svc2.ns1.example.com'', ''svc2.ns1''], [''*.ns1.example.com'', ''*.ns1'']] =
     ([Addr4 0xC0000002], [], []) \<and>
   ServeDNS exampleGateway 1800000000 exampleCell
     (Some \<lparr>Q_Name = ''svc2.ns1.example.com.'', Q_Type = TypeAAAA\<rparr>) =
     (Written RcodeSuccess
        \<lparr>Rcode = RcodeSuccess, Authoritative = True, Answer = [],
         Ns = [fst (soa exampleGateway 1800000000
                  \<lparr>Req = Some \<lparr>Q_Name = ''svc2.ns1.example.com.'', Q_Type = TypeAAAA\<rparr>,
                   Zone = ''example.com.''\<rparr> exampleCell)],
         Extra = []\<rparr>,
      snd (soa exampleGateway 1800000000
             \<lparr>Req = Some \<lparr>Q_Name = ''svc2.ns1.example.com.'', Q_Type = TypeAAAA\<rparr>,
              Zone = ''example.com.''\<rparr> exampleCell))"
proof -
  let ?r = "Some \<lparr>Q_Name = ''svc2.ns1.example.com.'', Q_Type = TypeAAAA\<rparr>"
  let ?kss = "[[''svc2.ns1.example.com'', ''svc2.ns1''], [''*.ns1.example.com'', ''*.ns1'']]"
  have qn: "QName \<lparr>Req = ?r, Zone = []\<rparr> = ''svc2.ns1.example.com.''"
    by (simp add: QName_def)
  have vz0: "validateQueryZone exampleGateway ''svc2.ns1.example.com.'' =
               Some (''example.com.'', True)"
    by code_simp
  have vz: "validateQueryZone exampleGateway (QName \<lparr>Req = ?r, Zone = []\<rparr>) =
              Some (''example.com.'', True)"
    unfolding qn by (rule vz0)
  have ks: "getQueryIndexKeySets (QName \<lparr>Req = ?r, Zone = []\<rparr>) ''example.com.'' = Some ?kss"
    unfolding qn by code_simp
  have synced: "hasSynced exampleGateway" by (simp add: exampleGateway_def)
  have apexq: "checkApexQuery exampleGateway 1800000000 \<lparr>Req = ?r, Zone = ''example.com.''\<rparr>
                 exampleCell = (False, False, None, exampleCell)"
    by code_simp
  have qt: "QType \<lparr>Req = ?r, Zone = ''example.com.''\<rparr> = TypeAAAA"
    by (simp add: QType_def)
  have found: "getMatchingAddressesWithCNAME exampleGateway ?kss = ([Addr4 0xC0000002], [], [])"
    by code_simp
  have v4: "\<exists>a \<in> set [Addr4 0xC0000002]. Is4 a" by simp
  have no6: "\<forall>a \<in> set [Addr4 0xC0000002]. \<not> Is6 a" by simp
  show ?thesis
    using vz0 found aaaa_ipv4_only_is_nodata [OF vz ks synced apexq qt found v4 no6]
    by simp
qed

theorem cname_kept_when_chain_fails_witness:
  "getMatchingAddressesWithCNAME exampleGateway
     [[''loop1.example.com'', ''loop1''], [''*.example.com'', ''*'']] =
     ([], [], [''loop2.example.com'']) \<and>
   resolveCNAMEChain exampleGateway ''loop2.example.com'' ''example.com.''
     (CNAMEMaxDepth exampleGateway) = Failed LoopDetected \<and>
   ServeDNS exampleGateway 1800000000 exampleCell
     (Some \<lparr>Q_Name = ''loop1.example.com.'', Q_Type = TypeA\<rparr>) =
     (Written RcodeSuccess
        \<lparr>Rcode = RcodeSuccess, Authoritative = True,
         Answer = [\<lparr>Hdr_Name = ''loop1.example.com.'', Hdr_Rrtype = TypeCNAME,
                    Hdr_Class = ClassINET, Hdr_Ttl = 30,
                    Rdata = CNAME_data ''loop2.example.com.''\<rparr>],
         Ns = [], Extra = []\<rparr>,
      exampleCell)"
proof -
  let ?r = "Some \<lparr>Q_Name = ''loop1.example.com.'', Q_Type = TypeA\<rparr>"
  let ?kss = "[[''loop1.example.com'', ''loop1''], [''*.example.com'', ''*'']]"
  have qn: "QName \<lparr>Req = ?r, Zone = []\<rparr> = ''loop1.example.com.''"
    by (simp add: QName_def)
  have vz: "validateQueryZone exampleGateway (QName \<lparr>Req = ?r, Zone = []\<rparr>) =
              Some (''example.com.'', True)"
    unfolding qn by code_simp
  have ks: "getQueryIndexKeySets (QName \<lparr>Req = ?r, Zone = []\<rparr>) ''example.com.'' = Some ?kss"
    unfolding qn by code_simp
  have synced: "hasSynced exampleGateway" by (simp add: exampleGateway_def)
  have apexq: "checkApexQuery exampleGateway 1800000000 \<lparr>Req = ?r, Zone = ''example.com.''\<rparr>
                 exampleCell = (False, False, None, exampleCell)"
    by code_simp
  have qt: "QType \<lparr>Req = ?r, Zone = ''example.com.''\<rparr> = TypeA \<or>
            QType \<lparr>Req = ?r, Zone = ''example.com.''\<rparr> = TypeAAAA"
    by (simp add: QType_def)
  have found: "getMatchingAddressesWithCNAME exampleGateway ?kss =
                 ([], [], [''loop2.example.com''])"
    by code_simp
  have cn: "[''loop2.example.com''] \<noteq> []" by simp
  have fail0: "resolveCNAMEChain exampleGateway ''loop2.example.com'' ''example.com.''
                (CNAMEMaxDepth exampleGateway) = Failed LoopDetected"
    by code_simp
  have fail: "resolveCNAMEChain exampleGateway (hd [''loop2.example.com'']) ''example.com.''
                (CNAMEMaxDepth exampleGateway) = Failed LoopDetected"
    using fail0 by simp
  have rec: "CNAME exampleGateway (Name \<lparr>Req = ?r, Zone = ''example.com.''\<rparr>)
               (hd [''loop2.example.com'']) =
             \<lparr>Hdr_Name = ''loop1.example.com.'', Hdr_Rrtype = TypeCNAME,
              Hdr_Class = ClassINET, Hdr_Ttl = 30,
              Rdata = CNAME_data ''loop2.example.com.''\<rparr>"
    by code_simp
  show ?thesis
    using found fail0 cname_kept_when_chain_fails [OF vz ks synced apexq qt found cn fail]
    unfolding rec by simp
qed

theorem cname_query_without_data_witness:
  "getMatchingAddressesWithCNAME exampleGateway
     [[''nonexistent.example.com'', ''nonexistent''], [''*.example.com'', ''*'']] = ([], [], []) \<and>
   fst (ServeDNS exampleGateway 1800000000 exampleCell
          (Some \<lparr>Q_Name = ''nonexistent.example.com.'', Q_Type = TypeCNAME\<rparr>)) =
     Written RcodeNameError
        \<lparr>Rcode = RcodeNameError, Authoritative = True, Answer = [],
         Ns = [fst (soa exampleGateway 1800000000
                  \<lparr>Req = Some \<lparr>Q_Name = ''nonexistent.example.com.'', Q_Type = TypeCNAME\<rparr>,
                   Zone = ''example.com.''\<rparr> exampleCell)],
         Extra = []\<rparr>"
proof -
  let ?r = "Some \<lparr>Q_Name = ''nonexistent.example.com.'', Q_Type = TypeCNAME\<rparr>"
  let ?kss = "[[''nonexistent.example.com'', ''nonexistent''], [''*.example.com'', ''*'']]"
  have qn: "QName \<lparr>Req = ?r, Zone = []\<rparr> = ''nonexistent.example.com.''"
    by (simp add: QName_def)
  have vz: "validateQueryZone exampleGateway (QName \<lparr>Req = ?r, Zone = []\<rparr>) =
              Some (''example.com.'', True)"
    unfolding qn by code_simp
  have ks: "getQueryIndexKeySets (QName \<lparr>Req = ?r, Zone = []\<rparr>) ''example.com.'' = Some ?kss"
    unfolding qn by code_simp
  have synced: "hasSynced exampleGateway" by (simp add: exampleGateway_def)
  have apexq: "checkApexQuery exampleGateway 1800000000 \<lparr>Req = ?r, Zone = ''example.com.''\<rparr>
                 exampleCell = (False, False, None, exampleCell)"
    by code_simp
  have qt: "QType \<lparr>Req = ?r, Zone = ''example.com.''\<rparr> = TypeCNAME"
    by (simp add: QType_def)
  have found: "getMatchingAddressesWithCNAME exampleGateway ?kss = ([], [], [])"
    by code_simp
  have nofall: "\<not> Through exampleGateway (QName \<lparr>Req = ?r, Zone = []\<rparr>)"
    unfolding qn by code_simp
  have sub: "Contains (ToLower (Name \<lparr>Req = ?r, Zone = ''example.com.''\<rparr>)) ''nonexistent''"
    by code_simp
  show ?thesis
    using found sub cname_query_without_data [OF vz ks synced apexq qt found nofall]
    by simp
qed

text \<open>
  The claim as stated (name error for every such query) fails: for \<open>foo.example.com.\<close>
  no table returns data, and the response code is success.
\<close>

theorem cname_query_without_data_counterexample:
  "getMatchingAddressesWithCNAME exampleGateway
     [[''foo.example.com'', ''foo''], [''*.example.com'', ''*'']] = ([], [], []) \<and>
   getQueryIndexKeySets ''foo.example.com.'' ''example.com.'' =
     Some [[''foo.example.com'', ''foo''], [''*.example.com'', ''*'']] \<and>
   ServeDNS exampleGateway 1800000000 exampleCell
     (Some \<lparr>Q_Name = ''foo.example.com.'', Q_Type = TypeCNAME\<rparr>) =
     (Written RcodeSuccess
        \<lparr>Rcode = RcodeSuccess, Authoritative = True, Answer = [],
         Ns = [\<lparr>Hdr_Name = ''example.com.'', Hdr_Rrtype = TypeSOA, Hdr_Class = ClassINET,
                Hdr_Ttl = 60,
                Rdata = SOA_data ''dns1.kube-system.example.com.''
                          ''hostmaster.dns1.kube-system.example.com.''
                          1800000000 7200 1800 86400 60\<rparr>],
         Extra = []\<rparr>,
      \<lparr>lastSerial = 1800000000, dirty = False\<rparr>) \<and>
   RcodeSuccess \<noteq> RcodeNameError"
  by code_simp

subsection \<open>The apex subtree\<close>

lemma checkApexQuery_loop_delegates:
  "\<forall>z \<in> set zs. Name st \<noteq> z \<Longrightarrow>
   \<exists>z \<in> set zs. IsSubDomain (apex gw @ ''.'' @ z) (Name st) \<Longrightarrow>
   checkApexQuery_loop gw now st c zs =
     (False, True, Some (fst (serveSubApex gw now st c)), snd (serveSubApex gw now st c))"
proof (induction zs)
  case Nil
  then show ?case by simp
next
  case (Cons a zs)
  show ?case
  proof (cases "IsSubDomain (apex gw @ ''.'' @ a) (Name st)")
    case True
    then show ?thesis using Cons.prems by (simp split: prod.splits)
  next
    case False
    then have "\<exists>z \<in> set zs. IsSubDomain (apex gw @ ''.'' @ z) (Name st)"
      using Cons.prems by auto
    moreover have "\<forall>z \<in> set zs. Name st \<noteq> z" using Cons.prems by simp
    ultimately have "checkApexQuery_loop gw now st c zs =
        (False, True, Some (fst (serveSubApex gw now st c)), snd (serveSubApex gw now st c))"
      using Cons.IH by blast
    then show ?thesis using False Cons.prems by simp
  qed
qed

lemma subApexAnswers_filter:
  "subApexAnswers gw st rrs =
     (if QType st = TypeA \<or> QType st = TypeAAAA
      then map (\<lambda>rr. rr\<lparr>Hdr_Ttl := ttlSOA gw, Hdr_Name := QName st\<rparr>)
               (filter (\<lambda>rr. Hdr_Rrtype rr = QType st) rrs)
      else [])"
  by (induction rrs) (auto simp: Let_def)

lemma serveSubApex_at_label:
  assumes base: "TrimZone (Name st) (Zone st) = Some (apex gw)"
    and two: "CountLabel (apex gw) = 2"
  shows "fst (serveSubApex gw now st c) =
     Written 0
       \<lparr>Rcode = RcodeSuccess, Authoritative = True,
        Answer = subApexAnswers gw st (ExternalAddrFunc gw st),
        Ns = (if subApexAnswers gw st (ExternalAddrFunc gw st) = []
              then [fst (soa gw now st c)] else []),
        Extra = []\<rparr>"
  using base two
  by (auto simp: serveSubApex_def Let_def newReply_def split: prod.splits)

lemma checkApexQuery_loop_not_under:
  "\<forall>z \<in> set zs. \<not> IsSubDomain (apex gw @ ''.'' @ z) (Name st) \<Longrightarrow>
   checkApexQuery_loop gw now st c zs = (Name st \<in> set zs, False, None, c)"
  by (induction zs) auto

lemma checkApexQuery_loop_decision_secondNS:
  "fst (checkApexQuery_loop (gw\<lparr>secondNS := s\<rparr>) now st c zs) =
     fst (checkApexQuery_loop gw now st c zs) \<and>
   fst (snd (checkApexQuery_loop (gw\<lparr>secondNS := s\<rparr>) now st c zs)) =
     fst (snd (checkApexQuery_loop gw now st c zs))"
  by (induction zs) (simp_all add: case_prod_unfold)

lemma CountLabel_empty: "CountLabel [] \<noteq> 2"
  by code_simp

lemma serveSubApex_off_label:
  assumes off: "\<not> (TrimZone (Name st) (Zone st) = Some (apex gw) \<and> CountLabel (apex gw) = 2)"
  shows "fst (serveSubApex gw now st c) =
     Written 0
       \<lparr>Rcode = RcodeNameError, Authoritative = True, Answer = [],
        Ns = [fst (soa gw now st c)], Extra = []\<rparr>"
proof (cases "TrimZone (Name st) (Zone st)")
  case None
  then show ?thesis
    by (simp add: serveSubApex_def subApexNameError_def Let_def newReply_def CountLabel_empty
             split: prod.splits)
next
  case (Some b)
  then show ?thesis using off
    by (auto simp: serveSubApex_def subApexNameError_def Let_def newReply_def
             split: prod.splits)
qed

lemma ServeDNS_unhandled:
  assumes vz: "validateQueryZone gw (QName \<lparr>Req = r, Zone = []\<rparr>) = Some (zone, True)"
    and ks: "getQueryIndexKeySets (QName \<lparr>Req = r, Zone = []\<rparr>) zone = Some kss"
    and synced: "hasSynced gw"
    and apexq: "checkApexQuery gw now \<lparr>Req = r, Zone = zone\<rparr> c = (isRoot, False, ret, c1)"
  shows "ServeDNS gw now c r =
     (case getMatchingAddressesWithCNAME gw kss of
        (addrs, raws, cnames) \<Rightarrow>
          if (addrs = [] \<and> raws = [] \<and> cnames = []) \<and>
             Through gw (QName \<lparr>Req = r, Zone = []\<rparr>)
          then (NextHandler, c)
          else
            (case processQueryResponse gw now newReply \<lparr>Req = r, Zone = zone\<rparr>
                    (filter Is4 addrs) (filter Is6 addrs) raws cnames isRoot
                    (addrs = [] \<and> raws = [] \<and> cnames = []) c of
               None \<Rightarrow> (ServePanicked, c)
             | Some (m, c2) \<Rightarrow>
                 (Written (if Rcode m = RcodeNameError then RcodeNameError else RcodeSuccess)
                          (m\<lparr>Authoritative := True\<rparr>), c2)))"
proof -
  have c1: "c1 = c" using checkApexQuery_result [OF apexq] by simp
  obtain addrs raws cnames where found:
    "getMatchingAddressesWithCNAME gw kss = (addrs, raws, cnames)"
    by (cases "getMatchingAddressesWithCNAME gw kss") auto
  show ?thesis
  proof (cases "(addrs = [] \<and> raws = [] \<and> cnames = []) \<and>
                Through gw (QName \<lparr>Req = r, Zone = []\<rparr>)")
    case True
    then show ?thesis
      using vz ks synced apexq found unfolding ServeDNS_def c1
      by (simp add: Let_def)
  next
    case False
    show ?thesis
      unfolding ServeDNS_regular [OF vz ks synced apexq found False] found
      using False by auto
  qed
qed

text \<open>
  C8 (as amended).  Take a query in a served zone, the indexer synced.

  \<^item> If its name lies under the apex label of a configured zone and equals no configured
    zone, \<open>ServeDNS\<close> delegates it to \<open>serveSubApex\<close> and returns that outcome.  When
    the lower-cased name with the zone removed is exactly the configured apex label, of
    two labels, an A or AAAA query is answered with the records of that type that the
    external-address callback returns, carrying the SOA TTL and the query name, with the
    SOA in the authority section when there is none; every other type gets an empty
    answer and the SOA in the authority section.  Anywhere else in the apex subtree the
    reply is a name error with the SOA in the authority section.

  \<^item> If its name lies under the apex label of no configured zone, \<open>checkApexQuery\<close>
    does not handle it, whatever the secondary label is and whether or not the name lies
    under it: the query takes the regular path (index lookup, fallthrough, response
    assembly), with \<open>isRootZone\<close> set exactly when the name is a configured zone.

  \<^item> The secondary label plays no part in the decision: replacing \<open>secondNS\<close> by any
    other value changes neither \<open>isRootZone\<close> nor \<open>handled\<close>.  So a name under the
    secondary label is delegated only if it also lies under the apex label.
\<close>

theorem subapex_delegation:
  assumes vz: "validateQueryZone gw (QName \<lparr>Req = r, Zone = []\<rparr>) = Some (zone, True)"
    and synced: "hasSynced gw"
  shows "((\<forall>z \<in> set (Zones gw). Name \<lparr>Req = r, Zone = zone\<rparr> \<noteq> z) \<and>
          (\<exists>z \<in> set (Zones gw).
             IsSubDomain (apex gw @ ''.'' @ z) (Name \<lparr>Req = r, Zone = zone\<rparr>)) \<longrightarrow>
     ServeDNS gw now c r = serveSubApex gw now \<lparr>Req = r, Zone = zone\<rparr> c \<and>
     (TrimZone (Name \<lparr>Req = r, Zone = zone\<rparr>) zone = Some (apex gw) \<and>
      CountLabel (apex gw) = 2 \<longrightarrow>
        fst (serveSubApex gw now \<lparr>Req = r, Zone = zone\<rparr> c) =
          Written 0
            \<lparr>Rcode = RcodeSuccess, Authoritative = True,
             Answer =
               (if QType \<lparr>Req = r, Zone = zone\<rparr> = TypeA \<or>
                   QType \<lparr>Req = r, Zone = zone\<rparr> = TypeAAAA
                then map (\<lambda>rr. rr\<lparr>Hdr_Ttl := ttlSOA gw,
                                   Hdr_Name := QName \<lparr>Req = r, Zone = zone\<rparr>\<rparr>)
                       (filter (\<lambda>rr. Hdr_Rrtype rr = QType \<lparr>Req = r, Zone = zone\<rparr>)
                          (ExternalAddrFunc gw \<lparr>Req = r, Zone = zone\<rparr>))
                else []),
             Ns =
               (if (QType \<lparr>Req = r, Zone = zone\<rparr> = TypeA \<or>
                    QType \<lparr>Req = r, Zone = zone\<rparr> = TypeAAAA) \<and>
                   filter (\<lambda>rr. Hdr_Rrtype rr = QType \<lparr>Req = r, Zone = zone\<rparr>)
                     (ExternalAddrFunc gw \<lparr>Req = r, Zone = zone\<rparr>) \<noteq> []
                then []
                else [fst (soa gw now \<lparr>Req = r, Zone = zone\<rparr> c)]),
             Extra = []\<rparr>) \<and>
     (\<not> (TrimZone (Name \<lparr>Req = r, Zone = zone\<rparr>) zone = Some (apex gw) \<and>
         CountLabel (apex gw) = 2) \<longrightarrow>
        fst (serveSubApex gw now \<lparr>Req = r, Zone = zone\<rparr> c) =
          Written 0
            \<lparr>Rcode = RcodeNameError, Authoritative = True, Answer = [],
             Ns = [fst (soa gw now \<lparr>Req = r, Zone = zone\<rparr> c)], Extra = []\<rparr>)) \<and>
    ((\<forall>z \<in> set (Zones gw).
        \<not> IsSubDomain (apex gw @ ''.'' @ z) (Name \<lparr>Req = r, Zone = zone\<rparr>)) \<longrightarrow>
     checkApexQuery gw now \<lparr>Req = r, Zone = zone\<rparr> c =
       (Name \<lparr>Req = r, Zone = zone\<rparr> \<in> set (Zones gw), False, None, c) \<and>
     (\<exists>kss. getQueryIndexKeySets (QName \<lparr>Req = r, Zone = []\<rparr>) zone = Some kss \<and>
        ServeDNS gw now c r =
          (case getMatchingAddressesWithCNAME gw kss of
             (addrs, raws, cnames) \<Rightarrow>
               if (addrs = [] \<and> raws = [] \<and> cnames = []) \<and>
                  Through gw (QName \<lparr>Req = r, Zone = []\<rparr>)
               then (NextHandler, c)
               else
                 (case processQueryResponse gw now newReply \<lparr>Req = r, Zone = zone\<rparr>
                         (filter Is4 addrs) (filter Is6 addrs) raws cnames
                         (Name \<lparr>Req = r, Zone = zone\<rparr> \<in> set (Zones gw))
                         (addrs = [] \<and> raws = [] \<and> cnames = []) c of
                    None \<Rightarrow> (ServePanicked, c)
                  | Some (m, c2) \<Rightarrow>
                      (Written (if Rcode m = RcodeNameError then RcodeNameError
                                else RcodeSuccess)
                               (m\<lparr>Authoritative := True\<rparr>), c2))))) \<and>
    fst (checkApexQuery (gw\<lparr>secondNS := s\<rparr>) now \<lparr>Req = r, Zone = zone\<rparr> c) =
      fst (checkApexQuery gw now \<lparr>Req = r, Zone = zone\<rparr> c) \<and>
    fst (snd (checkApexQuery (gw\<lparr>secondNS := s\<rparr>) now \<lparr>Req = r, Zone = zone\<rparr> c)) =
      fst (snd (checkApexQuery gw now \<lparr>Req = r, Zone = zone\<rparr> c))"
proof (intro conjI impI)
  let ?st = "\<lparr>Req = r, Zone = zone\<rparr>"
  assume del: "(\<forall>z \<in> set (Zones gw). Name ?st \<noteq> z) \<and>
               (\<exists>z \<in> set (Zones gw). IsSubDomain (apex gw @ ''.'' @ z) (Name ?st))"
  have chk: "checkApexQuery gw now ?st c =
     (False, True, Some (fst (serveSubApex gw now ?st c)), snd (serveSubApex gw now ?st c))"
    unfolding checkApexQuery_def
    using del by (intro checkApexQuery_loop_delegates) blast+
  show "ServeDNS gw now c r = serveSubApex gw now ?st c"
    by (rule ServeDNS_subapex [OF vz synced chk])
next
  let ?st = "\<lparr>Req = r, Zone = zone\<rparr>"
  assume at: "TrimZone (Name ?st) zone = Some (apex gw) \<and> CountLabel (apex gw) = 2"
  have "fst (serveSubApex gw now ?st c) =
          Written 0
            \<lparr>Rcode = RcodeSuccess, Authoritative = True,
             Answer = subApexAnswers gw ?st (ExternalAddrFunc gw ?st),
             Ns = (if subApexAnswers gw ?st (ExternalAddrFunc gw ?st) = []
                   then [fst (soa gw now ?st c)] else []),
             Extra = []\<rparr>"
    using serveSubApex_at_label [of ?st gw now c] at by simp
  then show "fst (serveSubApex gw now ?st c) =
          Written 0
            \<lparr>Rcode = RcodeSuccess, Authoritative = True,
             Answer =
               (if QType ?st = TypeA \<or> QType ?st = TypeAAAA
                then map (\<lambda>rr. rr\<lparr>Hdr_Ttl := ttlSOA gw, Hdr_Name := QName ?st\<rparr>)
                       (filter (\<lambda>rr. Hdr_Rrtype rr = QType ?st) (ExternalAddrFunc gw ?st))
                else []),
             Ns =
               (if (QType ?st = TypeA \<or> QType ?st = TypeAAAA) \<and>
                   filter (\<lambda>rr. Hdr_Rrtype rr = QType ?st) (ExternalAddrFunc gw ?st) \<noteq> []
                then []
                else [fst (soa gw now ?st c)]),
             Extra = []\<rparr>"
    unfolding subApexAnswers_filter by auto
next
  let ?st = "\<lparr>Req = r, Zone = zone\<rparr>"
  assume off: "\<not> (TrimZone (Name ?st) zone = Some (apex gw) \<and> CountLabel (apex gw) = 2)"
  show "fst (serveSubApex gw now ?st c) =
          Written 0
            \<lparr>Rcode = RcodeNameError, Authoritative = True, Answer = [],
             Ns = [fst (soa gw now ?st c)], Extra = []\<rparr>"
    using serveSubApex_off_label [of ?st gw now c] off by simp
next
  let ?st = "\<lparr>Req = r, Zone = zone\<rparr>"
  assume nu: "\<forall>z \<in> set (Zones gw). \<not> IsSubDomain (apex gw @ ''.'' @ z) (Name ?st)"
  show chk: "checkApexQuery gw now ?st c = (Name ?st \<in> set (Zones gw), False, None, c)"
    unfolding checkApexQuery_def by (rule checkApexQuery_loop_not_under [OF nu])
  have len: "length zone \<le> length (QName \<lparr>Req = r, Zone = []\<rparr>)"
    using vz by (auto simp: validateQueryZone_def Let_def split: if_splits)
  obtain kss where ks: "getQueryIndexKeySets (QName \<lparr>Req = r, Zone = []\<rparr>) zone = Some kss"
    using getQueryIndexKeySets_two [OF len] by blast
  show "\<exists>kss. getQueryIndexKeySets (QName \<lparr>Req = r, Zone = []\<rparr>) zone = Some kss \<and>
        ServeDNS gw now c r =
          (case getMatchingAddressesWithCNAME gw kss of
             (addrs, raws, cnames) \<Rightarrow>
               if (addrs = [] \<and> raws = [] \<and> cnames = []) \<and>
                  Through gw (QName \<lparr>Req = r, Zone = []\<rparr>)
               then (NextHandler, c)
               else
                 (case processQueryResponse gw now newReply ?st
                         (filter Is4 addrs) (filter Is6 addrs) raws cnames
                         (Name ?st \<in> set (Zones gw))
                         (addrs = [] \<and> raws = [] \<and> cnames = []) c of
                    None \<Rightarrow> (ServePanicked, c)
                  | Some (m, c2) \<Rightarrow>
                      (Written (if Rcode m = RcodeNameError then RcodeNameError
                                else RcodeSuccess)
                               (m\<lparr>Authoritative := True\<rparr>), c2)))"
    using ks ServeDNS_unhandled [OF vz ks synced chk] by blast
next
  show "fst (checkApexQuery (gw\<lparr>secondNS := s\<rparr>) now \<lparr>Req = r, Zone = zone\<rparr> c) =
      fst (checkApexQuery gw now \<lparr>Req = r, Zone = zone\<rparr> c)"
    using checkApexQuery_loop_decision_secondNS
            [where gw = gw and s = s and now = now and st = "\<lparr>Req = r, Zone = zone\<rparr>"
               and c = c and zs = "Zones gw"]
    by (simp add: checkApexQuery_def)
next
  show "fst (snd (checkApexQuery (gw\<lparr>secondNS := s\<rparr>) now \<lparr>Req = r, Zone = zone\<rparr> c)) =
      fst (snd (checkApexQuery gw now \<lparr>Req = r, Zone = zone\<rparr> c))"
    using checkApexQuery_loop_decision_secondNS
            [where gw = gw and s = s and now = now and st = "\<lparr>Req = r, Zone = zone\<rparr>"
               and c = c and zs = "Zones gw"]
    by (simp add: checkApexQuery_def)
qed

text \<open>
  The example gateway on two queries: \<open>dns1.kube-system.example.com.\<close>, at the apex
  label, is delegated and answered from the callback; \<open>dns2.kube-system.example.com.\<close>,
  at the secondary label, lies under no apex label and is not handled by
  \<open>checkApexQuery\<close>.
\<close>

theorem subapex_delegation_witness:
  "IsSubDomain (apex exampleGateway @ ''.'' @ ''example.com.'') ''dns1.kube-system.example.com.'' \<and>
   ServeDNS exampleGateway 1800000000 exampleCell
     (Some \<lparr>Q_Name = ''dns1.kube-system.example.com.'', Q_Type = TypeA\<rparr>) =
   serveSubApex exampleGateway 1800000000
     \<lparr>Req = Some \<lparr>Q_Name = ''dns1.kube-system.example.com.'', Q_Type = TypeA\<rparr>,
      Zone = ''example.com.''\<rparr> exampleCell \<and>
   fst (serveSubApex exampleGateway 1800000000
     \<lparr>Req = Some \<lparr>Q_Name = ''dns1.kube-system.example.com.'', Q_Type = TypeA\<rparr>,
      Zone = ''example.com.''\<rparr> exampleCell) =
     Written 0
       \<lparr>Rcode = RcodeSuccess, Authoritative = True,
        Answer = [\<lparr>Hdr_Name = ''dns1.kube-system.example.com.'', Hdr_Rrtype = TypeA,
                   Hdr_Class = ClassINET, Hdr_Ttl = 60, Rdata = A_data (Addr4 0x7F000001)\<rparr>],
        Ns = [], Extra = []\<rparr> \<and>
   \<not> IsSubDomain (apex exampleGateway @ ''.'' @ ''example.com.'')
       ''dns2.kube-system.example.com.'' \<and>
   checkApexQuery exampleGateway 1800000000
     \<lparr>Req = Some \<lparr>Q_Name = ''dns2.kube-system.example.com.'', Q_Type = TypeA\<rparr>,
      Zone = ''example.com.''\<rparr> exampleCell = (False, False, None, exampleCell)"
proof -
  let ?r = "Some \<lparr>Q_Name = ''dns1.kube-system.example.com.'', Q_Type = TypeA\<rparr>"
  let ?st = "\<lparr>Req = ?r, Zone = ''example.com.''\<rparr>"
  let ?r2 = "Some \<lparr>Q_Name = ''dns2.kube-system.example.com.'', Q_Type = TypeA\<rparr>"
  let ?st2 = "\<lparr>Req = ?r2, Zone = ''example.com.''\<rparr>"
  have qn: "QName \<lparr>Req = ?r, Zone = []\<rparr> = ''dns1.kube-system.example.com.''"
    by (simp add: QName_def)
  have vz: "validateQueryZone exampleGateway (QName \<lparr>Req = ?r, Zone = []\<rparr>) =
              Some (''example.com.'', True)"
    unfolding qn by code_simp
  have qn2: "QName \<lparr>Req = ?r2, Zone = []\<rparr> = ''dns2.kube-system.example.com.''"
    by (simp add: QName_def)
  have vz2: "validateQueryZone exampleGateway (QName \<lparr>Req = ?r2, Zone = []\<rparr>) =
              Some (''example.com.'', True)"
    unfolding qn2 by code_simp
  have synced: "hasSynced exampleGateway" by (simp add: exampleGateway_def)
  have nm: "Name ?st = ''dns1.kube-system.example.com.''" by code_simp
  have nm2: "Name ?st2 = ''dns2.kube-system.example.com.''" by code_simp
  have zs: "Zones exampleGateway = [''example.com.'']" by (simp add: exampleGateway_def)
  have sub: "IsSubDomain (apex exampleGateway @ ''.'' @ ''example.com.'')
               ''dns1.kube-system.example.com.''"
    by code_simp
  have nsub: "\<not> IsSubDomain (apex exampleGateway @ ''.'' @ ''example.com.'')
               ''dns2.kube-system.example.com.''"
    by code_simp
  have noapex: "\<forall>z \<in> set (Zones exampleGateway). Name ?st \<noteq> z"
    unfolding nm zs by simp
  have under: "\<exists>z \<in> set (Zones exampleGateway).
                 IsSubDomain (apex exampleGateway @ ''.'' @ z) (Name ?st)"
    unfolding nm zs using sub by simp
  have nu: "\<forall>z \<in> set (Zones exampleGateway).
              \<not> IsSubDomain (apex exampleGateway @ ''.'' @ z) (Name ?st2)"
    unfolding nm2 zs using nsub by simp
  have base: "TrimZone (Name ?st) ''example.com.'' = Some (apex exampleGateway)"
    unfolding nm by code_simp
  have two: "CountLabel (apex exampleGateway) = 2" by code_simp
  have qt: "QType ?st = TypeA" by (simp add: QType_def)
  have cb: "map (\<lambda>rr. rr\<lparr>Hdr_Ttl := ttlSOA exampleGateway, Hdr_Name := QName ?st\<rparr>)
              (filter (\<lambda>rr. Hdr_Rrtype rr = TypeA) (ExternalAddrFunc exampleGateway ?st)) =
            [\<lparr>Hdr_Name = ''dns1.kube-system.example.com.'', Hdr_Rrtype = TypeA,
              Hdr_Class = ClassINET, Hdr_Ttl = 60, Rdata = A_data (Addr4 0x7F000001)\<rparr>]"
    by code_simp
  have ne: "filter (\<lambda>rr. Hdr_Rrtype rr = TypeA) (ExternalAddrFunc exampleGateway ?st) \<noteq> []"
    using cb by auto
  note delegated =
    mp [OF conjunct1 [OF subapex_delegation [OF vz synced, where now = 1800000000
                                               and c = exampleCell]]
        conjI [OF noapex under]]
  note served = conjunct1 [OF delegated]
  note answered = mp [OF conjunct1 [OF conjunct2 [OF delegated]] conjI [OF base two]]
  note unhandled =
    conjunct1 [OF mp [OF conjunct1 [OF conjunct2 [OF subapex_delegation [OF vz2 synced,
                        where now = 1800000000 and c = exampleCell]]] nu]]
  have notzone: "Name ?st2 \<notin> set (Zones exampleGateway)"
    unfolding nm2 zs by simp
  have chk2: "checkApexQuery exampleGateway 1800000000 ?st2 exampleCell =
                (False, False, None, exampleCell)"
    using unhandled notzone by simp
  have ans: "fst (serveSubApex exampleGateway 1800000000 ?st exampleCell) =
     Written 0
       \<lparr>Rcode = RcodeSuccess, Authoritative = True,
        Answer = [\<lparr>Hdr_Name = ''dns1.kube-system.example.com.'', Hdr_Rrtype = TypeA,
                   Hdr_Class = ClassINET, Hdr_Ttl = 60, Rdata = A_data (Addr4 0x7F000001)\<rparr>],
        Ns = [], Extra = []\<rparr>"
    using answered cb ne unfolding qt by simp
  show ?thesis
    using sub served ans nsub chk2 by blast
qed

text \<open>
  The claim as stated fails: with the secondary label \<open>dns2.kube-system\<close> configured, a
  query for \<open>dns2.kube-system.example.com.\<close> is not handled by \<open>checkApexQuery\<close>; it
  takes the regular path and, the index holding nothing for it, gets name error.
\<close>

theorem secondary_label_not_delegated_counterexample:
  "secondNS exampleGateway = ''dns2.kube-system'' \<and>
   IsSubDomain (secondNS exampleGateway @ ''.'' @ ''example.com.'')
     ''dns2.kube-system.example.com.'' \<and>
   checkApexQuery exampleGateway 1800000000
     \<lparr>Req = Some \<lparr>Q_Name = ''dns2.kube-system.example.com.'', Q_Type = TypeA\<rparr>,
      Zone = ''example.com.''\<rparr> exampleCell = (False, False, None, exampleCell) \<and>
   ServeDNS exampleGateway 1800000000 exampleCell
     (Some \<lparr>Q_Name = ''dns2.kube-system.example.com.'', Q_Type = TypeA\<rparr>) =
     (Written RcodeNameError
        \<lparr>Rcode = RcodeNameError, Authoritative = True, Answer = [],
         Ns = [\<lparr>Hdr_Name = ''example.com.'', Hdr_Rrtype = TypeSOA, Hdr_Class = ClassINET,
                Hdr_Ttl = 60,
                Rdata = SOA_data ''dns1.kube-system.example.com.''
                          ''hostmaster.dns1.kube-system.example.com.''
                          1800000000 7200 1800 86400 60\<rparr>],
         Extra = []\<rparr>,
      \<lparr>lastSerial = 1800000000, dirty = False\<rparr>)"
  by code_simp

subsection \<open>TTLs\<close>

lemma A_lowTTL: "r \<in> set (A gw n as) \<Longrightarrow> lowTTLRecord gw r"
  by (auto simp: A_def lowTTLRecord_def)

lemma AAAA_lowTTL: "r \<in> set (AAAA gw n as) \<Longrightarrow> lowTTLRecord gw r"
  by (auto simp: AAAA_def lowTTLRecord_def)

lemma TXT_lowTTL: "r \<in> set (TXT gw n ts) \<Longrightarrow> lowTTLRecord gw r"
  by (auto simp: TXT_def lowTTLRecord_def)

lemma CNAME_lowTTL: "lowTTLRecord gw (CNAME gw n t)"
  by (simp add: CNAME_def lowTTLRecord_def)

lemma soa_header:
  "Hdr_Rrtype (fst (soa gw now st c)) = TypeSOA \<and> Hdr_Ttl (fst (soa gw now st c)) = ttlSOA gw"
  by (simp add: soa_def split: prod.splits)

lemma soa_header':
  "soa gw now st c = (r, c') \<Longrightarrow> Hdr_Rrtype r = TypeSOA \<and> Hdr_Ttl r = ttlSOA gw"
  using soa_header [of gw now st c] by simp

lemma nameservers_soaTTL: "r \<in> set (nameservers gw st) \<Longrightarrow> soaTTLRecord gw r"
  by (auto simp: nameservers_def ns1_def ns2_def soaTTLRecord_def split: option.splits if_splits)

lemma sectionsOK_newReply: "sectionsOK gw st newReply"
  by (simp add: sectionsOK_def newReply_def)

lemma sectionsOK_Rcode [simp]: "sectionsOK gw st (m\<lparr>Rcode := x\<rparr>) = sectionsOK gw st m"
  by (simp add: sectionsOK_def)

lemma sectionsOK_Authoritative [simp]:
  "sectionsOK gw st (m\<lparr>Authoritative := x\<rparr>) = sectionsOK gw st m"
  by (simp add: sectionsOK_def)

lemma setNegativeResponse_OK:
  "sectionsOK gw st m \<Longrightarrow> setNegativeResponse gw now m st c = (m', c') \<Longrightarrow> sectionsOK gw st m'"
  by (auto simp: setNegativeResponse_def sectionsOK_def split: prod.splits dest: soa_header')

lemma addResolvedAddresses_OK:
  "sectionsOK gw st m \<Longrightarrow> sectionsOK gw st (addResolvedAddresses gw m cn as v4 v6)"
  by (auto simp: addResolvedAddresses_def sectionsOK_def Let_def dest: A_lowTTL AAAA_lowTTL)

lemma processCNAME_OK:
  "sectionsOK gw st m \<Longrightarrow> processCNAMEWithResolution gw m st cn v4 v6 = Some m' \<Longrightarrow>
   sectionsOK gw st m'"
proof -
  assume ok: "sectionsOK gw st m"
    and run: "processCNAMEWithResolution gw m st cn v4 v6 = Some m'"
  have ok1: "sectionsOK gw st (m\<lparr>Answer := Answer m @ [CNAME gw (Name st) cn]\<rparr>)"
    using ok by (auto simp: sectionsOK_def CNAME_lowTTL)
  show ?thesis
    using run ok1 addResolvedAddresses_OK [OF ok1]
    by (auto simp: processCNAMEWithResolution_def Let_def split: resolution.splits if_splits)
qed

lemma sectionsOK_Answer:
  "sectionsOK gw st m \<Longrightarrow> \<forall>r \<in> set rs. lowTTLRecord gw r \<or> soaTTLRecord gw r \<Longrightarrow>
   sectionsOK gw st (m\<lparr>Answer := rs\<rparr>)"
  by (simp add: sectionsOK_def)

lemma handleAddressQuery_OK:
  assumes ok: "sectionsOK gw st m"
    and run: "handleAddressQuery gw now m st as cns root v4 c = Some (m', c')"
  shows "sectionsOK gw st m'"
proof (cases "length as = 0 \<and> length cns = 0")
  case True
  obtain m1 c1 where neg: "setNegativeResponse gw now m st c = (m1, c1)"
    by (cases "setNegativeResponse gw now m st c") auto
  have "sectionsOK gw st m1" by (rule setNegativeResponse_OK [OF ok neg])
  then show ?thesis
    using run True neg by (auto simp: handleAddressQuery_def split: if_splits)
next
  case False
  show ?thesis
  proof (cases "length cns > 0")
    case True
    then show ?thesis
      using run False processCNAME_OK [OF ok]
      by (auto simp: handleAddressQuery_def split: option.splits)
  next
    case nc: False
    have "sectionsOK gw st (m\<lparr>Answer := A gw (Name st) as\<rparr>)"
      by (rule sectionsOK_Answer [OF ok]) (auto dest: A_lowTTL)
    moreover have "sectionsOK gw st (m\<lparr>Answer := AAAA gw (Name st) as\<rparr>)"
      by (rule sectionsOK_Answer [OF ok]) (auto dest: AAAA_lowTTL)
    ultimately show ?thesis
      using run False nc by (auto simp: handleAddressQuery_def split: if_splits)
  qed
qed

lemma handleDataQuery_OK:
  assumes ok: "sectionsOK gw st m"
    and run: "handleDataQuery gw now m st data root nd c = (m', c')"
  shows "sectionsOK gw st m'"
proof (cases "length data = 0")
  case True
  obtain m1 c1 where neg: "setNegativeResponse gw now m st c = (m1, c1)"
    by (cases "setNegativeResponse gw now m st c") auto
  have "sectionsOK gw st m1" by (rule setNegativeResponse_OK [OF ok neg])
  then show ?thesis
    using run True neg by (auto simp: handleDataQuery_def split: if_splits)
next
  case False
  have "sectionsOK gw st (m\<lparr>Answer := TXT gw (Name st) data\<rparr>)"
    by (rule sectionsOK_Answer [OF ok]) (auto dest: TXT_lowTTL)
  then show ?thesis
    using run False by (auto simp: handleDataQuery_def)
qed

lemma handleCNAMEQuery_OK:
  assumes ok: "sectionsOK gw st m"
    and run: "handleCNAMEQuery gw now m st cns root nd c = (m', c')"
  shows "sectionsOK gw st m'"
proof (cases "length cns = 0")
  case True
  obtain m1 c1 where neg: "setNegativeResponse gw now m st c = (m1, c1)"
    by (cases "setNegativeResponse gw now m st c") auto
  have "sectionsOK gw st m1" by (rule setNegativeResponse_OK [OF ok neg])
  then show ?thesis
    using run True neg by (auto simp: handleCNAMEQuery_def split: if_splits)
next
  case False
  have "sectionsOK gw st (m\<lparr>Answer := [CNAME gw (Name st) (hd cns)]\<rparr>)"
    by (rule sectionsOK_Answer [OF ok]) (simp add: CNAME_lowTTL)
  then show ?thesis
    using run False by (auto simp: handleCNAMEQuery_def)
qed

lemma handleNSQuery_OK:
  assumes ok: "sectionsOK gw st m"
    and run: "handleNSQuery gw now m st root c = (m', c')"
  shows "sectionsOK gw st m'"
proof (cases root)
  case True
  have "sectionsOK gw st (m\<lparr>Answer := nameservers gw st\<rparr>)"
    by (rule sectionsOK_Answer [OF ok]) (auto dest: nameservers_soaTTL)
  then have "sectionsOK gw st (addExtraRecords gw (m\<lparr>Answer := nameservers gw st\<rparr>) st)"
    by (auto simp: sectionsOK_def addExtraRecords_def nameserverAddress_def)
  then show ?thesis
    using run True by (auto simp: handleNSQuery_def)
next
  case False
  then show ?thesis
    using run setNegativeResponse_OK [OF ok] by (auto simp: handleNSQuery_def)
qed

lemma processQueryResponse_OK:
  assumes ok: "sectionsOK gw st m"
    and run: "processQueryResponse gw now m st v4 v6 raws cns root nd c = Some (m', c')"
  shows "sectionsOK gw st m'"
proof -
  consider (q_a) "QType st = TypeA"
    | (q_aaaa) "QType st \<noteq> TypeA" "QType st = TypeAAAA"
    | (q_txt) "QType st \<noteq> TypeA" "QType st \<noteq> TypeAAAA" "QType st = TypeTXT"
    | (q_cname) "QType st \<noteq> TypeA" "QType st \<noteq> TypeAAAA" "QType st \<noteq> TypeTXT"
        "QType st = TypeCNAME"
    | (q_soa) "QType st \<noteq> TypeA" "QType st \<noteq> TypeAAAA" "QType st \<noteq> TypeTXT"
        "QType st \<noteq> TypeCNAME" "QType st = TypeSOA"
    | (q_ns) "QType st \<noteq> TypeA" "QType st \<noteq> TypeAAAA" "QType st \<noteq> TypeTXT"
        "QType st \<noteq> TypeCNAME" "QType st \<noteq> TypeSOA" "QType st = TypeNS"
    | (q_other) "QType st \<noteq> TypeA" "QType st \<noteq> TypeAAAA" "QType st \<noteq> TypeTXT"
        "QType st \<noteq> TypeCNAME" "QType st \<noteq> TypeSOA" "QType st \<noteq> TypeNS"
    by blast
  then show ?thesis
  proof cases
    case q_a
    then show ?thesis
      using run handleAddressQuery_OK [OF ok] by (simp add: processQueryResponse_def)
  next
    case q_aaaa
    then show ?thesis
      using run handleAddressQuery_OK [OF ok]
      by (auto simp: processQueryResponse_def split: option.splits if_splits)
  next
    case q_txt
    then show ?thesis
      using run handleDataQuery_OK [OF ok]
      by (cases "handleDataQuery gw now m st raws root nd c")
         (auto simp: processQueryResponse_def)
  next
    case q_cname
    then show ?thesis
      using run handleCNAMEQuery_OK [OF ok]
      by (cases "handleCNAMEQuery gw now m st cns root nd c")
         (auto simp: processQueryResponse_def)
  next
    case q_soa
    obtain r c1 where s: "soa gw now st c = (r, c1)" by (cases "soa gw now st c") auto
    have "sectionsOK gw st (m\<lparr>Answer := [r]\<rparr>)"
      by (rule sectionsOK_Answer [OF ok]) (use soa_header' [OF s] in \<open>simp add: soaTTLRecord_def\<close>)
    then show ?thesis
      using run q_soa s by (auto simp: processQueryResponse_def)
  next
    case q_ns
    then show ?thesis
      using run handleNSQuery_OK [OF ok]
      by (cases "handleNSQuery gw now m st root c")
         (auto simp: processQueryResponse_def)
  next
    case q_other
    then show ?thesis
      using run setNegativeResponse_OK [OF ok]
      by (cases "setNegativeResponse gw now m st c")
         (auto simp: processQueryResponse_def)
  qed
qed


lemma serveSubApex_sections:
  assumes run: "serveSubApex gw now st c = (Written code m, c')"
  shows "(\<forall>r \<in> set (Answer m). nameserverAddress gw st r \<and>
            (Hdr_Rrtype r = TypeA \<or> Hdr_Rrtype r = TypeAAAA)) \<and>
         (\<forall>r \<in> set (Ns m). Hdr_Rrtype r = TypeSOA \<and> Hdr_Ttl r = ttlSOA gw) \<and>
         Extra m = []"
proof -
  have ans: "\<forall>r \<in> set (subApexAnswers gw st (ExternalAddrFunc gw st)).
      nameserverAddress gw st r \<and> (Hdr_Rrtype r = TypeA \<or> Hdr_Rrtype r = TypeAAAA)"
    unfolding subApexAnswers_filter by (auto simp: nameserverAddress_def)
  show ?thesis
    using run ans soa_header [of gw now st c]
    by (auto simp: serveSubApex_def subApexNameError_def Let_def newReply_def
             split: if_splits prod.splits)
qed

lemma ServeDNS_Written_cases:
  assumes run: "ServeDNS gw now c r = (Written code m, c')"
    and vz: "validateQueryZone gw (QName \<lparr>Req = r, Zone = []\<rparr>) = Some (zone, v)"
  shows "serveSubApex gw now \<lparr>Req = r, Zone = zone\<rparr> c = (Written code m, c') \<or>
         (\<exists>v4 v6 raws cns root nd m0.
            processQueryResponse gw now newReply \<lparr>Req = r, Zone = zone\<rparr> v4 v6 raws cns root nd c =
              Some (m0, c') \<and> m = m0\<lparr>Authoritative := True\<rparr>)"
proof -
  let ?st = "\<lparr>Req = r, Zone = zone\<rparr>"
  let ?q = "QName \<lparr>Req = r, Zone = []\<rparr>"
  have v: "v" using run vz by (auto simp: ServeDNS_def Let_def split: if_splits)
  obtain kss where ks: "getQueryIndexKeySets ?q zone = Some kss"
    using run vz v by (auto simp: ServeDNS_def Let_def split: option.splits)
  have synced: "hasSynced gw"
    using run vz v ks by (auto simp: ServeDNS_def Let_def split: if_splits)
  obtain isRoot handled ret c1 where chk: "checkApexQuery gw now ?st c = (isRoot, handled, ret, c1)"
    by (cases "checkApexQuery gw now ?st c") auto
  show ?thesis
  proof (cases handled)
    case True
    have "ServeDNS gw now c r = serveSubApex gw now ?st c"
      using ServeDNS_subapex [OF _ synced, of r zone now c isRoot ret c1] vz v chk True by simp
    then show ?thesis using run by simp
  next
    case False
    obtain addrs raws cnames where found:
      "getMatchingAddressesWithCNAME gw kss = (addrs, raws, cnames)"
      by (cases "getMatchingAddressesWithCNAME gw kss") auto
    have c1: "c1 = c" using checkApexQuery_result [OF chk] False by simp
    have nofall: "\<not> ((addrs = [] \<and> raws = [] \<and> cnames = []) \<and> Through gw ?q)"
      using run vz v ks synced chk False found unfolding c1
      by (auto simp: ServeDNS_def Let_def)
    have reg: "ServeDNS gw now c r =
       (case processQueryResponse gw now newReply ?st (filter Is4 addrs) (filter Is6 addrs)
               raws cnames isRoot (addrs = [] \<and> raws = [] \<and> cnames = []) c of
          None \<Rightarrow> (ServePanicked, c)
        | Some (m, c2) \<Rightarrow>
            (Written (if Rcode m = RcodeNameError then RcodeNameError else RcodeSuccess)
                     (m\<lparr>Authoritative := True\<rparr>), c2))"
      using ServeDNS_regular [OF _ ks synced _ found nofall, of now c isRoot ret c1]
        vz v chk False by simp
    obtain m0 where
        pq: "processQueryResponse gw now newReply ?st (filter Is4 addrs) (filter Is6 addrs)
               raws cnames isRoot (addrs = [] \<and> raws = [] \<and> cnames = []) c = Some (m0, c')"
      and m: "m = m0\<lparr>Authoritative := True\<rparr>"
      using run unfolding reg
      by (auto split: option.splits prod.splits)
    show ?thesis
      using pq m by blast
  qed
qed

text \<open>
  C5 (as amended).  In every message \<open>ServeDNS\<close> writes, each record of the answer
  section is an A, AAAA, TXT or CNAME record with the low TTL, or an SOA or NS record with
  the SOA TTL, or a nameserver address record with the SOA TTL: an A or AAAA record of the
  external-address callback, given in answer to a query for the nameserver name itself.
  Each record of the authority section is an SOA record with the SOA TTL, and each extra
  record is a record of the external-address callback with the SOA TTL.  No record
  carries a TTL other than these two.
\<close>

theorem response_ttls:
  assumes run: "ServeDNS gw now c r = (Written code m, c')"
    and vz: "validateQueryZone gw (QName \<lparr>Req = r, Zone = []\<rparr>) = Some (zone, v)"
  shows "(\<forall>rr \<in> set (Answer m).
            lowTTLRecord gw rr \<or> soaTTLRecord gw rr \<or>
            (nameserverAddress gw \<lparr>Req = r, Zone = zone\<rparr> rr \<and>
             (Hdr_Rrtype rr = TypeA \<or> Hdr_Rrtype rr = TypeAAAA))) \<and>
         (\<forall>rr \<in> set (Ns m). Hdr_Rrtype rr = TypeSOA \<and> Hdr_Ttl rr = ttlSOA gw) \<and>
         (\<forall>rr \<in> set (Extra m). nameserverAddress gw \<lparr>Req = r, Zone = zone\<rparr> rr) \<and>
         (\<forall>rr \<in> set (Answer m @ Ns m @ Extra m).
            Hdr_Ttl rr = ttlLow gw \<or> Hdr_Ttl rr = ttlSOA gw)"
proof -
  let ?st = "\<lparr>Req = r, Zone = zone\<rparr>"
  have parts: "(\<forall>rr \<in> set (Answer m).
            lowTTLRecord gw rr \<or> soaTTLRecord gw rr \<or>
            (nameserverAddress gw ?st rr \<and>
             (Hdr_Rrtype rr = TypeA \<or> Hdr_Rrtype rr = TypeAAAA))) \<and>
         (\<forall>rr \<in> set (Ns m). Hdr_Rrtype rr = TypeSOA \<and> Hdr_Ttl rr = ttlSOA gw) \<and>
         (\<forall>rr \<in> set (Extra m). nameserverAddress gw ?st rr)"
    using ServeDNS_Written_cases [OF run vz]
  proof (elim disjE exE conjE)
    assume "serveSubApex gw now ?st c = (Written code m, c')"
    from serveSubApex_sections [OF this] show ?thesis by auto
  next
    fix v4 v6 raws cns root nd m0
    assume pq: "processQueryResponse gw now newReply ?st v4 v6 raws cns root nd c = Some (m0, c')"
      and m: "m = m0\<lparr>Authoritative := True\<rparr>"
    have "sectionsOK gw ?st m0"
      by (rule processQueryResponse_OK [OF sectionsOK_newReply pq])
    then show ?thesis unfolding m by (auto simp: sectionsOK_def)
  qed
  have "\<forall>rr \<in> set (Answer m @ Ns m @ Extra m).
            Hdr_Ttl rr = ttlLow gw \<or> Hdr_Ttl rr = ttlSOA gw"
    using parts by (auto simp: lowTTLRecord_def soaTTLRecord_def nameserverAddress_def)
  then show ?thesis using parts by blast
qed


theorem response_ttls_witness:
  "ServeDNS exampleGateway 1800000000 exampleCell
     (Some \<lparr>Q_Name = ''example.com.'', Q_Type = TypeNS\<rparr>) =
     (Written RcodeSuccess
        \<lparr>Rcode = RcodeSuccess, Authoritative = True,
         Answer = [\<lparr>Hdr_Name = ''example.com.'', Hdr_Rrtype = TypeNS, Hdr_Class = ClassINET,
                    Hdr_Ttl = 60, Rdata = NS_data ''dns1.kube-system.example.com.''\<rparr>,
                   \<lparr>Hdr_Name = ''example.com.'', Hdr_Rrtype = TypeNS, Hdr_Class = ClassINET,
                    Hdr_Ttl = 60, Rdata = NS_data ''dns2.kube-system.example.com.''\<rparr>],
         Ns = [],
         Extra = [\<lparr>Hdr_Name = ''dns1.kube-system.example.com.'', Hdr_Rrtype = TypeA,
                   Hdr_Class = ClassINET, Hdr_Ttl = 60, Rdata = A_data (Addr4 0x7F000001)\<rparr>]\<rparr>,
      exampleCell) \<and>
   nameserverAddress exampleGateway
     \<lparr>Req = Some \<lparr>Q_Name = ''example.com.'', Q_Type = TypeNS\<rparr>, Zone = ''example.com.''\<rparr>
     \<lparr>Hdr_Name = ''dns1.kube-system.example.com.'', Hdr_Rrtype = TypeA,
      Hdr_Class = ClassINET, Hdr_Ttl = 60, Rdata = A_data (Addr4 0x7F000001)\<rparr> \<and>
   ttlSOA exampleGateway = 60 \<and> ttlLow exampleGateway = 30"
proof -
  let ?r = "Some \<lparr>Q_Name = ''example.com.'', Q_Type = TypeNS\<rparr>"
  let ?m = "\<lparr>Rcode = RcodeSuccess, Authoritative = True,
         Answer = [\<lparr>Hdr_Name = ''example.com.'', Hdr_Rrtype = TypeNS, Hdr_Class = ClassINET,
                    Hdr_Ttl = 60, Rdata = NS_data ''dns1.kube-system.example.com.''\<rparr>,
                   \<lparr>Hdr_Name = ''example.com.'', Hdr_Rrtype = TypeNS, Hdr_Class = ClassINET,
                    Hdr_Ttl = 60, Rdata = NS_data ''dns2.kube-system.example.com.''\<rparr>],
         Ns = [],
         Extra = [\<lparr>Hdr_Name = ''dns1.kube-system.example.com.'', Hdr_Rrtype = TypeA,
                   Hdr_Class = ClassINET, Hdr_Ttl = 60, Rdata = A_data (Addr4 0x7F000001)\<rparr>]\<rparr>"
  have run: "ServeDNS exampleGateway 1800000000 exampleCell ?r =
               (Written RcodeSuccess ?m, exampleCell)"
    by code_simp
  have qn: "QName \<lparr>Req = ?r, Zone = []\<rparr> = ''example.com.''"
    by (simp add: QName_def)
  have vz: "validateQueryZone exampleGateway (QName \<lparr>Req = ?r, Zone = []\<rparr>) =
              Some (''example.com.'', True)"
    unfolding qn by code_simp
  have ttl: "ttlSOA exampleGateway = 60" "ttlLow exampleGateway = 30"
    by (simp_all add: exampleGateway_def)
  show ?thesis
    using run ttl response_ttls [OF run vz] by simp
qed

text \<open>
  The claim as stated (every A record has the low TTL unless it is an extra of an NS
  answer) fails: with a low TTL of 30, the A query for \<open>dns1.kube-system.example.com.\<close>
  is answered, in the answer section, with an A record whose TTL is the SOA TTL, 60.
\<close>

theorem subapex_answer_ttl_counterexample:
  "ServeDNS exampleGateway 1800000000 exampleCell
     (Some \<lparr>Q_Name = ''dns1.kube-system.example.com.'', Q_Type = TypeA\<rparr>) =
     (Written 0
        \<lparr>Rcode = RcodeSuccess, Authoritative = True,
         Answer = [\<lparr>Hdr_Name = ''dns1.kube-system.example.com.'', Hdr_Rrtype = TypeA,
                    Hdr_Class = ClassINET, Hdr_Ttl = 60, Rdata = A_data (Addr4 0x7F000001)\<rparr>],
         Ns = [], Extra = []\<rparr>,
      exampleCell) \<and>
   ttlLow exampleGateway = 30 \<and> ttlSOA exampleGateway = 60"
  by code_simp

subsection \<open>Zone transfer\<close>

lemma recordsGet_names:
  "wfRecords records \<Longrightarrow> \<forall>r \<in> set (recordsGet records key). Hdr_Name r = key"
  by (induction records) (auto simp: wfRecords_def split: if_splits)

lemma recordsGet_nonempty:
  "wfRecords records \<Longrightarrow> key \<in> set (map fst records) \<Longrightarrow> recordsGet records key \<noteq> []"
  by (induction records) (force simp: wfRecords_def split: if_splits)+

lemma recordsPut_keys:
  "set (map fst (recordsPut records key rs)) = insert key (set (map fst records))"
  by (induction records) (force split: if_splits)+

lemma recordsPut_wf:
  "wfRecords records \<Longrightarrow> rs \<noteq> [] \<Longrightarrow> \<forall>r \<in> set rs. Hdr_Name r = key \<Longrightarrow>
   wfRecords (recordsPut records key rs)"
proof (induction records)
  case Nil
  then show ?case by (simp add: wfRecords_def)
next
  case (Cons e records)
  obtain k old where e: "e = (k, old)" by (cases e)
  have tail: "wfRecords records" using Cons.prems(1) by (simp add: wfRecords_def)
  have IH: "wfRecords (recordsPut records key rs)"
    by (rule Cons.IH [OF tail Cons.prems(2,3)])
  show ?case
  proof (cases "k = key")
    case True
    then show ?thesis using Cons.prems e by (simp add: wfRecords_def)
  next
    case False
    have "k \<notin> set (map fst (recordsPut records key rs))"
      using Cons.prems(1) False e unfolding recordsPut_keys by (simp add: wfRecords_def)
    then show ?thesis
      using IH Cons.prems(1) False e by (simp add: wfRecords_def)
  qed
qed

lemma addRecords_wf:
  assumes wf: "wfRecords records" and names: "\<forall>r \<in> set rrs. Hdr_Name r = key"
  shows "wfRecords (addRecords records key rrs)"
proof (cases "rrs = []")
  case True
  then show ?thesis using wf by (simp add: addRecords_def)
next
  case False
  have "\<forall>r \<in> set (recordsGet records key @ rrs). Hdr_Name r = key"
    using recordsGet_names [OF wf, of key] names by auto
  then have "wfRecords (recordsPut records key (recordsGet records key @ rrs))"
    using False by (intro recordsPut_wf [OF wf]) simp_all
  then show ?thesis using False by (simp add: addRecords_def)
qed

lemma A_names: "\<forall>r \<in> set (A gw n as). Hdr_Name r = n"
  by (simp add: A_def)

lemma AAAA_names: "\<forall>r \<in> set (AAAA gw n as). Hdr_Name r = n"
  by (simp add: AAAA_def)

lemma TXT_names: "\<forall>r \<in> set (TXT gw n ts). Hdr_Name r = n"
  by (simp add: TXT_def)

lemma addAddressRecords_wf:
  "wfRecords records \<Longrightarrow> wfRecords (addAddressRecords gw records fqdn addrs)"
  unfolding addAddressRecords_def
  by (intro addRecords_wf A_names AAAA_names)

lemma fold_wf:
  assumes step: "\<And>x r. wfRecords r \<Longrightarrow> wfRecords (f x r)"
  shows "wfRecords r \<Longrightarrow> wfRecords (fold f xs r)"
  by (induction xs arbitrary: r) (auto intro: step)

lemma transferIngresses_wf:
  "wfRecords records \<Longrightarrow> wfRecords (transferIngresses gw h records zone)"
  unfolding transferIngresses_def
  by (intro fold_wf)
     (auto simp: Let_def intro!: fold_wf addAddressRecords_wf split: k8s_object.splits)

lemma transferServices_wf:
  "wfRecords records \<Longrightarrow> wfRecords (transferServices gw h records zone)"
  unfolding transferServices_def
  by (intro fold_wf)
     (auto simp: Let_def intro!: fold_wf addAddressRecords_wf split: k8s_object.splits)

lemma transferRouteResources_wf:
  "wfRecords records \<Longrightarrow> wfRecords (transferRouteResources gw h records zone gwCtrl route)"
  unfolding transferRouteResources_def
  by (auto simp: Let_def intro!: fold_wf addAddressRecords_wf)

lemma transferHTTPRoutes_wf:
  "wfRecords records \<Longrightarrow> wfRecords (transferHTTPRoutes gw h records zone)"
  unfolding transferHTTPRoutes_def
  by (auto intro!: fold_wf transferRouteResources_wf split: option.splits k8s_object.splits)

lemma transferTLSRoutes_wf:
  "wfRecords records \<Longrightarrow> wfRecords (transferTLSRoutes gw h records zone)"
  unfolding transferTLSRoutes_def
  by (auto intro!: fold_wf transferRouteResources_wf split: option.splits k8s_object.splits)

lemma transferGRPCRoutes_wf:
  "wfRecords records \<Longrightarrow> wfRecords (transferGRPCRoutes gw h records zone)"
  unfolding transferGRPCRoutes_def
  by (auto intro!: fold_wf transferRouteResources_wf split: option.splits k8s_object.splits)

lemma transferEndpoint_wf:
  "wfRecords records \<Longrightarrow> wfRecords (transferEndpoint gw h zone endpoint records)"
  unfolding transferEndpoint_def
  by (auto simp: Let_def intro!: addRecords_wf A_names AAAA_names TXT_names)

lemma transferDNSEndpoints_wf:
  "wfRecords records \<Longrightarrow> wfRecords (transferDNSEndpoints gw h records zone)"
  unfolding transferDNSEndpoints_def
  by (auto intro!: fold_wf transferEndpoint_wf split: k8s_object.splits)

lemma collectRecords_wf: "wfRecords (collectRecords gw h zone)"
  unfolding collectRecords_def
  by (rule fold_wf)
     (auto simp: wfRecords_def [of "[]"]
           intro: transferIngresses_wf transferServices_wf transferHTTPRoutes_wf
                  transferTLSRoutes_wf transferGRPCRoutes_wf transferDNSEndpoints_wf)

lemma transferResources_sorted:
  "sorted_wrt (<) (map groupOwner (transferResources gw h zone)) \<and>
   (\<forall>g \<in> set (transferResources gw h zone). g \<noteq> [] \<and> (\<forall>r \<in> set g. Hdr_Name r = groupOwner g))"
proof (cases "hasSynced gw")
  case False
  then show ?thesis by (simp add: transferResources_def)
next
  case True
  let ?records = "collectRecords gw h zone"
  let ?keys = "sort (map fst ?records)"
  have wf: "wfRecords ?records" by (rule collectRecords_wf)
  have groups: "transferResources gw h zone = map (\<lambda>key. recordsGet ?records key) ?keys"
    using True by (simp add: transferResources_def Let_def)
  have own: "\<And>key. key \<in> set ?keys \<Longrightarrow>
      recordsGet ?records key \<noteq> [] \<and>
      (\<forall>r \<in> set (recordsGet ?records key). Hdr_Name r = key) \<and>
      groupOwner (recordsGet ?records key) = key"
  proof -
    fix key assume "key \<in> set ?keys"
    then have mem: "key \<in> set (map fst ?records)" by simp
    have ne: "recordsGet ?records key \<noteq> []" by (rule recordsGet_nonempty [OF wf mem])
    have nm: "\<forall>r \<in> set (recordsGet ?records key). Hdr_Name r = key"
      by (rule recordsGet_names [OF wf])
    have "hd (recordsGet ?records key) \<in> set (recordsGet ?records key)" using ne by simp
    then have "groupOwner (recordsGet ?records key) = key"
      using nm by (simp add: groupOwner_def)
    then show "recordsGet ?records key \<noteq> [] \<and>
      (\<forall>r \<in> set (recordsGet ?records key). Hdr_Name r = key) \<and>
      groupOwner (recordsGet ?records key) = key"
      using ne nm by blast
  qed
  have "map (\<lambda>key. groupOwner (recordsGet ?records key)) ?keys = map (\<lambda>key. key) ?keys"
    by (rule map_cong [OF refl]) (use own in blast)
  then have owners: "map groupOwner (transferResources gw h zone) = ?keys"
    unfolding groups by (simp add: comp_def)
  have "distinct ?keys" using wf by (simp add: wfRecords_def)
  then have strict: "sorted_wrt (<) ?keys" by (simp add: strict_sorted_iff)
  show ?thesis
    unfolding owners using strict own unfolding groups by auto
qed

lemma Transfer_full:
  assumes run: "Transfer gw h now c zone serial = (Inr stream, c')"
    and full: "serial = 0 \<or> serial \<noteq> Serial (fst (soa gw now \<lparr>Req = None, Zone = zone\<rparr> c))"
  shows "stream =
     [[fst (soa gw now \<lparr>Req = None, Zone = zone\<rparr> c)]] @
     map (\<lambda>ns. [ns]) (nameservers gw \<lparr>Req = None, Zone = zone\<rparr>) @
     (if ExternalAddrFunc gw \<lparr>Req = None, Zone = zone\<rparr> \<noteq> []
      then [ExternalAddrFunc gw \<lparr>Req = None, Zone = zone\<rparr>] else []) @
     transferResources gw h zone @
     [[fst (soa gw now \<lparr>Req = None, Zone = zone\<rparr> c)]]"
  using run full
  by (auto simp: Transfer_def Let_def split: if_splits prod.splits)

text \<open>
  C4.  A zone transfer that returns a stream, for caller serial 0 or any serial other
  than the current one, sends the zone SOA first and the same SOA record last.  Between
  them come the apex records (one group for each NS record, then the group of the
  external-address callback when it is not empty) and then the groups collected from the
  resources: each of these is non-empty, all its records carry one owner name, and the
  owner names of successive groups are strictly ascending in the byte-wise lexicographic
  order of \<open>sort.Strings\<close>.
\<close>

theorem transfer_stream_bracketed_and_sorted:
  "Transfer gw h now c zone serial = (Inr stream, c') \<Longrightarrow>
   serial = 0 \<or> serial \<noteq> Serial (fst (soa gw now \<lparr>Req = None, Zone = zone\<rparr> c)) \<Longrightarrow>
     stream =
       [[fst (soa gw now \<lparr>Req = None, Zone = zone\<rparr> c)]] @
       map (\<lambda>ns. [ns]) (nameservers gw \<lparr>Req = None, Zone = zone\<rparr>) @
       (if ExternalAddrFunc gw \<lparr>Req = None, Zone = zone\<rparr> \<noteq> []
        then [ExternalAddrFunc gw \<lparr>Req = None, Zone = zone\<rparr>] else []) @
       transferResources gw h zone @
       [[fst (soa gw now \<lparr>Req = None, Zone = zone\<rparr> c)]] \<and>
     hd stream = [fst (soa gw now \<lparr>Req = None, Zone = zone\<rparr> c)] \<and>
     last stream = [fst (soa gw now \<lparr>Req = None, Zone = zone\<rparr> c)] \<and>
     2 \<le> length stream \<and>
     hd (concat stream) = fst (soa gw now \<lparr>Req = None, Zone = zone\<rparr> c) \<and>
     last (concat stream) = fst (soa gw now \<lparr>Req = None, Zone = zone\<rparr> c) \<and>
     Hdr_Rrtype (fst (soa gw now \<lparr>Req = None, Zone = zone\<rparr> c)) = TypeSOA \<and>
     sorted_wrt (<) (map groupOwner (transferResources gw h zone)) \<and>
     (\<forall>g \<in> set (transferResources gw h zone).
        g \<noteq> [] \<and> (\<forall>r \<in> set g. Hdr_Name r = groupOwner g))"
proof -
  assume run: "Transfer gw h now c zone serial = (Inr stream, c')"
    and full: "serial = 0 \<or> serial \<noteq> Serial (fst (soa gw now \<lparr>Req = None, Zone = zone\<rparr> c))"
  let ?soa = "fst (soa gw now \<lparr>Req = None, Zone = zone\<rparr> c)"
  let ?mid = "map (\<lambda>ns. [ns]) (nameservers gw \<lparr>Req = None, Zone = zone\<rparr>) @
       (if ExternalAddrFunc gw \<lparr>Req = None, Zone = zone\<rparr> \<noteq> []
        then [ExternalAddrFunc gw \<lparr>Req = None, Zone = zone\<rparr>] else []) @
       transferResources gw h zone"
  have shape: "stream = [[?soa]] @ ?mid @ [[?soa]]"
    using Transfer_full [OF run full] by simp
  have h: "hd stream = [?soa]" unfolding shape by simp
  have l: "last stream = [?soa]" unfolding shape by simp
  have n: "2 \<le> length stream" unfolding shape by simp
  have ch: "hd (concat stream) = ?soa" unfolding shape by simp
  have cl: "last (concat stream) = ?soa" unfolding shape by simp
  have ty: "Hdr_Rrtype ?soa = TypeSOA" using soa_header by blast
  show ?thesis
    using Transfer_full [OF run full] h l n ch cl ty transferResources_sorted [of gw h zone]
    by blast
qed

theorem transfer_stream_bracketed_and_sorted_witness:
  "fst (Transfer exampleTransferGateway exampleKube 1800000000 exampleCell ''example.com.'' 0) =
     Inr ([[fst (soa exampleTransferGateway 1800000000 exampleState exampleCell)]] @
          map (\<lambda>ns. [ns]) (nameservers exampleTransferGateway exampleState) @
          [ExternalAddrFunc exampleTransferGateway exampleState] @
          transferResources exampleTransferGateway exampleKube ''example.com.'' @
          [[fst (soa exampleTransferGateway 1800000000 exampleState exampleCell)]]) \<and>
   map groupOwner (transferResources exampleTransferGateway exampleKube ''example.com.'') =
     [''api.ns1.example.com.'', ''web.ns1.example.com.''] \<and>
   sorted_wrt (<) (map groupOwner
     (transferResources exampleTransferGateway exampleKube ''example.com.''))"
proof -
  let ?T = "Transfer exampleTransferGateway exampleKube 1800000000 exampleCell ''example.com.'' 0"
  have m: "Matches (Zones exampleTransferGateway) ''example.com.'' = ''example.com.''"
    by code_simp
  have "\<exists>stream. fst ?T = Inr stream"
    by (simp add: Transfer_def Let_def m split: prod.splits)
  then obtain stream where s: "fst ?T = Inr stream" by blast
  have run: "?T = (Inr stream, snd ?T)" using s by (cases ?T) simp
  have full: "(0::uint32) = 0 \<or>
      0 \<noteq> Serial (fst (soa exampleTransferGateway 1800000000
                          \<lparr>Req = None, Zone = ''example.com.''\<rparr> exampleCell))"
    by simp
  have st: "\<lparr>Req = None, Zone = ''example.com.''\<rparr> = exampleState"
    by (simp add: exampleState_def)
  have glue: "ExternalAddrFunc exampleTransferGateway exampleState \<noteq> []"
    by code_simp
  have owners: "map groupOwner (transferResources exampleTransferGateway exampleKube
                  ''example.com.'') = [''api.ns1.example.com.'', ''web.ns1.example.com.'']"
    by code_simp
  note inst = transfer_stream_bracketed_and_sorted [OF run full, unfolded st]
  show ?thesis
    using inst glue owners s by simp
qed

end
